theory Spec2Isabelle
  imports Complex_Main
begin

section \<open>Python strings\<close>

text \<open>
  A Python \<open>str\<close> is a sequence of Unicode code points. The byte order mark U+FEFF does
  not fit an 8-bit \<open>char\<close>, so a string is modelled as the list of its code points.
  \<open>str\<close> embeds an ASCII literal.
\<close>

type_synonym pystr = "nat list"

definition str :: "string \<Rightarrow> pystr" where
  "str s = map of_char s"

text \<open>
  \<open>str.isspace\<close> of one code point (the table of CPython's \<open>_PyUnicode_IsWhitespace\<close>);
  it is the set that \<open>str.strip()\<close>, \<open>str.split()\<close> and the regular expression class
  \<open>\s\<close> on \<open>str\<close> patterns use.
\<close>

definition isspace :: "nat \<Rightarrow> bool" where
  "isspace c \<longleftrightarrow>
     (9 \<le> c \<and> c \<le> 13) \<or> (28 \<le> c \<and> c \<le> 32) \<or> c = 133 \<or> c = 160 \<or> c = 5760 \<or>
     (8192 \<le> c \<and> c \<le> 8202) \<or> c = 8232 \<or> c = 8233 \<or> c = 8239 \<or> c = 8287 \<or> c = 12288"

text \<open>The line boundaries of \<open>str.splitlines()\<close> (CPython's \<open>_PyUnicode_IsLinebreak\<close>).\<close>

definition is_linebreak :: "nat \<Rightarrow> bool" where
  "is_linebreak c \<longleftrightarrow>
     (10 \<le> c \<and> c \<le> 13) \<or> (28 \<le> c \<and> c \<le> 30) \<or> c = 133 \<or> c = 8232 \<or> c = 8233"

text \<open>\<open>s.strip()\<close>: leading and trailing whitespace removed.\<close>

definition strip :: "pystr \<Rightarrow> pystr" where
  "strip s = rev (dropWhile isspace (rev (dropWhile isspace s)))"

text \<open>
  \<open>s.splitlines()\<close>: \<open>cur\<close> is the line read so far. A carriage return followed by a
  line feed is one boundary; a final line without a boundary is kept unless it is empty.
\<close>

fun splitlines_from :: "pystr \<Rightarrow> pystr \<Rightarrow> pystr list" where
  "splitlines_from cur [] = (if cur = [] then [] else [cur])"
| "splitlines_from cur [c] = (if is_linebreak c then [cur] else [cur @ [c]])"
| "splitlines_from cur (c # d # cs) =
     (if c = 13 \<and> d = 10 then cur # splitlines_from [] cs
      else if is_linebreak c then cur # splitlines_from [] (d # cs)
      else splitlines_from (cur @ [c]) (d # cs))"

definition splitlines :: "pystr \<Rightarrow> pystr list" where
  "splitlines s = splitlines_from [] s"

text \<open>\<open>s.split()\<close> with no argument: the maximal runs of non-whitespace.\<close>

fun split_from :: "pystr \<Rightarrow> pystr \<Rightarrow> pystr list" where
  "split_from cur [] = (if cur = [] then [] else [cur])"
| "split_from cur (c # cs) =
     (if isspace c then (if cur = [] then split_from [] cs else cur # split_from [] cs)
      else split_from (cur @ [c]) cs)"

definition split :: "pystr \<Rightarrow> pystr list" where
  "split s = split_from [] s"

text \<open>\<open>sep.join(xs)\<close>.\<close>

fun join :: "pystr \<Rightarrow> pystr list \<Rightarrow> pystr" where
  "join sep [] = []"
| "join sep [x] = x"
| "join sep (x # y # ys) = x @ sep @ join sep (y # ys)"

text \<open>\<open>re.sub(r"\s+", "", s)\<close>: every run of whitespace is deleted.\<close>

definition remove_whitespace :: "pystr \<Rightarrow> pystr" where
  "remove_whitespace s = filter (\<lambda>c. \<not> isspace c) s"

section \<open>Errors\<close>

datatype py_error = IndexError | KeyError | AttributeError | TypeError | ValueError

text \<open>\<open>xs[i]\<close> for a non-negative index.\<close>

definition index :: "'a list \<Rightarrow> nat \<Rightarrow> py_error + 'a" where
  "index xs i = (if i < length xs then Inr (xs ! i) else Inl IndexError)"

section \<open>The block parser: \<open>parse_lga_text\<close>\<close>

record lga_record =
  LGA :: pystr
  HASC :: pystr
  State :: pystr
  Capital :: pystr
  Population :: pystr
  Latitude :: pystr
  Longitude :: pystr
  AreaKm :: pystr
  Density :: pystr

text \<open>
  The body of the \<open>try\<close> block at cursor \<open>i\<close>, in the order of the source; the first
  failing subscript decides the exception.
\<close>

definition extract_record :: "pystr list \<Rightarrow> nat \<Rightarrow> py_error + lga_record" where
  "extract_record lines i =
     (case index lines i of Inl e \<Rightarrow> Inl e | Inr lga \<Rightarrow>
      case index lines (i + 1) of Inl e \<Rightarrow> Inl e | Inr l1 \<Rightarrow>
      let hasc_state = split l1 in
      case index hasc_state 0 of Inl e \<Rightarrow> Inl e | Inr hasc \<Rightarrow>
      let state = join (str '' '') (drop 1 hasc_state) in
      case index lines (i + 2) of Inl e \<Rightarrow> Inl e | Inr capital \<Rightarrow>
      case index lines (i + 3) of Inl e \<Rightarrow> Inl e | Inr l3 \<Rightarrow>
      let pop = remove_whitespace l3 in
      case index lines (i + 4) of Inl e \<Rightarrow> Inl e | Inr lat \<Rightarrow>
      case index lines (i + 5) of Inl e \<Rightarrow> Inl e | Inr lon \<Rightarrow>
      case index lines (i + 6) of Inl e \<Rightarrow> Inl e | Inr area \<Rightarrow>
      case index lines (i + 7) of Inl e \<Rightarrow> Inl e | Inr density \<Rightarrow>
      Inr \<lparr>LGA = lga, HASC = hasc, State = state, Capital = capital, Population = pop,
           Latitude = lat, Longitude = lon, AreaKm = area, Density = density\<rparr>)"

text \<open>The \<open>while i < len(lines)\<close> loop: 8 lines forward on success, 1 on any exception.\<close>

function parse_loop :: "pystr list \<Rightarrow> nat \<Rightarrow> lga_record list \<Rightarrow> lga_record list" where
  "parse_loop lines i records =
     (if i < length lines then
        (case extract_record lines i of
           Inr r \<Rightarrow> parse_loop lines (i + 8) (records @ [r])
         | Inl e \<Rightarrow> parse_loop lines (i + 1) records)
      else records)"
  by pat_completeness auto
termination
  by (relation "measure (\<lambda>(lines, i, records). length lines - i)") auto

declare parse_loop.simps [simp del]

text \<open>\<open>[line.strip() for line in raw_text.splitlines() if line.strip()]\<close>\<close>

definition nonblank_lines :: "pystr \<Rightarrow> pystr list" where
  "nonblank_lines raw_text = map strip (filter (\<lambda>line. strip line \<noteq> []) (splitlines raw_text))"

text \<open>
  The data frame built from the list of row dictionaries is modelled by that list: one
  row per record, in the order of the list.
\<close>

definition parse_lga_text :: "pystr \<Rightarrow> lga_record list" where
  "parse_lga_text raw_text = parse_loop (nonblank_lines raw_text) 0 []"

section \<open>The column normaliser: \<open>clean_lga_data\<close>\<close>

subsection \<open>String operations on column names and values\<close>

text \<open>
  \<open>s.replace(old, new)\<close> without a regular expression: the occurrences of \<open>old\<close> are
  replaced from left to right, without overlap. For the empty \<open>old\<close> Python puts \<open>new\<close>
  before every code point and at the end.
\<close>

function replace :: "pystr \<Rightarrow> pystr \<Rightarrow> pystr \<Rightarrow> pystr" where
  "replace old new s =
     (if old = [] then new @ concat (map (\<lambda>c. c # new) s)
      else if s = [] then []
      else if take (length old) s = old then new @ replace old new (drop (length old) s)
      else hd s # replace old new (tl s))"
  by pat_completeness auto
termination
  by (relation "measure (\<lambda>(old, new, s). length s)") auto

declare replace.simps [simp del]

text \<open>\<open>.str.replace(r'[()]', '', regex=True)\<close>: both parenthesis characters are deleted.\<close>

definition remove_parens :: "pystr \<Rightarrow> pystr" where
  "remove_parens s = filter (\<lambda>c. c \<noteq> 40 \<and> c \<noteq> 41) s"

text \<open>
  \<open>s.lower()\<close>. On a string of ASCII code points it maps \<open>A\<close>..\<open>Z\<close> to \<open>a\<close>..\<open>z\<close>.
  Beyond ASCII the result comes from the Unicode character database, which is not part
  of the program: it is the parameter \<open>ext\<close>.
\<close>

definition ascii_lower :: "nat \<Rightarrow> nat" where
  "ascii_lower c = (if 65 \<le> c \<and> c \<le> 90 then c + 32 else c)"

definition lower :: "(pystr \<Rightarrow> pystr) \<Rightarrow> pystr \<Rightarrow> pystr" where
  "lower ext s = (if list_all (\<lambda>c. c < 128) s then map ascii_lower s else ext s)"

text \<open>
  The pipeline on one column label, in the order of the source: \<open>strip\<close>, the byte order
  mark U+FEFF, its mis-decoded form (U+00EF U+00BB U+00BF), the parentheses, spaces to
  underscores, lower case.
\<close>

definition clean_column_name :: "(pystr \<Rightarrow> pystr) \<Rightarrow> pystr \<Rightarrow> pystr" where
  "clean_column_name ext name =
     lower ext
       (replace (str '' '') (str ''_'')
         (remove_parens
           (replace [239, 187, 191] []
             (replace [65279] []
               (strip name)))))"

subsection \<open>Tables\<close>

text \<open>
  A number of a numeric column, by its value: a finite one is a rational (every 64-bit
  integer and every finite double is one), or one of the two infinities. The rounding
  of doubles and the text of a number are not computed here: reading and printing
  numbers are parameters of the functions below.
\<close>

datatype number = NegInf | Fin rat | PosInf

text \<open>A cell holds a text, a number or the missing-value marker NaN.\<close>

datatype cell = Text pystr | Number number | NaN

text \<open>
  A data frame: its columns in order, each a label with its values. Labels are strings and
  may repeat.
\<close>

type_synonym table = "(pystr \<times> cell list) list"

definition columns :: "table \<Rightarrow> pystr list" where
  "columns df = map fst df"

text \<open>
  \<open>df[col]\<close> used as a series (\<open>.str\<close>, or as the argument of \<open>pd.to_numeric\<close>). With a
  label that occurs once it is that column. With a repeated label \<open>df[col]\<close> is a data
  frame: it has no \<open>.str\<close> accessor (AttributeError), and \<open>pd.to_numeric\<close> rejects it
  (TypeError). \<open>e\<close> is the exception of the use at hand.
\<close>

definition series :: "py_error \<Rightarrow> table \<Rightarrow> pystr \<Rightarrow> py_error + cell list" where
  "series e df col =
     (case filter (\<lambda>c. fst c = col) df of
        [] \<Rightarrow> Inl KeyError
      | [c] \<Rightarrow> Inr (snd c)
      | _ \<Rightarrow> Inl e)"

text \<open>\<open>df[col] = values\<close> for a label that occurs once.\<close>

definition setitem :: "table \<Rightarrow> pystr \<Rightarrow> cell list \<Rightarrow> table" where
  "setitem df col vs = map (\<lambda>c. if fst c = col then (col, vs) else c) df"

text \<open>\<open>.astype(str)\<close> on one value; \<open>ns\<close> is \<open>str\<close> on a number.\<close>

definition astype_str :: "(number \<Rightarrow> pystr) \<Rightarrow> cell \<Rightarrow> pystr" where
  "astype_str ns v = (case v of Text s \<Rightarrow> s | Number x \<Rightarrow> ns x | NaN \<Rightarrow> str ''nan'')"

text \<open>
  \<open>pd.to_numeric(\<dots>, errors="coerce")\<close> on one value; \<open>tn\<close> reads a text as a number
  and gives \<open>None\<close> for a text that is no number or that reads as NaN.
\<close>

definition to_numeric :: "(pystr \<Rightarrow> number option) \<Rightarrow> cell \<Rightarrow> cell" where
  "to_numeric tn v =
     (case v of
        Text s \<Rightarrow> (case tn s of None \<Rightarrow> NaN | Some x \<Rightarrow> Number x)
      | Number x \<Rightarrow> Number x
      | NaN \<Rightarrow> NaN)"

definition string_cols :: "pystr list" where
  "string_cols = [str ''lga'', str ''hasc'', str ''state'', str ''capital'']"

definition numeric_cols :: "pystr list" where
  "numeric_cols = [str ''population'', str ''latitude'', str ''longitude'', str ''areakm'',
     str ''area_km'', str ''density'']"

text \<open>The first statement: the new labels.\<close>

definition clean_columns :: "(pystr \<Rightarrow> pystr) \<Rightarrow> table \<Rightarrow> table" where
  "clean_columns ext df = map (\<lambda>c. (clean_column_name ext (fst c), snd c)) df"

text \<open>The body of the loop over \<open>string_cols\<close>.\<close>

definition clean_string_col :: "(number \<Rightarrow> pystr) \<Rightarrow> pystr \<Rightarrow> table \<Rightarrow> py_error + table" where
  "clean_string_col ns col df =
     (if col \<in> set (columns df) then
        (case series AttributeError df col of
           Inl e \<Rightarrow> Inl e
         | Inr vs \<Rightarrow> Inr (setitem df col (map (\<lambda>v. Text (strip (astype_str ns v))) vs)))
      else Inr df)"

text \<open>The body of the loop over \<open>numeric_cols\<close>: the two assignments.\<close>

definition fix_numeric_col ::
    "(pystr \<Rightarrow> number option) \<Rightarrow> (number \<Rightarrow> pystr) \<Rightarrow> pystr \<Rightarrow> table \<Rightarrow> py_error + table" where
  "fix_numeric_col tn ns col df =
     (if col \<in> set (columns df) then
        (case series AttributeError df col of
           Inl e \<Rightarrow> Inl e
         | Inr vs \<Rightarrow>
             let df1 = setitem df col
                   (map (\<lambda>v. Text (replace (str '','') [] (replace (str '' '') [] (strip (astype_str ns v))))) vs)
             in (case series TypeError df1 col of
                   Inl e \<Rightarrow> Inl e
                 | Inr ws \<Rightarrow> Inr (setitem df1 col (map (to_numeric tn) ws))))
      else Inr df)"

text \<open>A \<open>for\<close> loop over column names whose body may raise.\<close>

fun for_cols :: "(pystr \<Rightarrow> table \<Rightarrow> py_error + table) \<Rightarrow> pystr list \<Rightarrow> table \<Rightarrow> py_error + table" where
  "for_cols body [] df = Inr df"
| "for_cols body (col # cols) df =
     (case body col df of Inl e \<Rightarrow> Inl e | Inr df' \<Rightarrow> for_cols body cols df')"

definition clean_lga_data ::
    "(pystr \<Rightarrow> number option) \<Rightarrow> (number \<Rightarrow> pystr) \<Rightarrow> (pystr \<Rightarrow> pystr) \<Rightarrow> table \<Rightarrow> py_error + table" where
  "clean_lga_data tn ns ext df =
     (case for_cols (clean_string_col ns) string_cols (clean_columns ext df) of
        Inl e \<Rightarrow> Inl e
      | Inr df' \<Rightarrow> for_cols (fix_numeric_col tn ns) numeric_cols df')"

subsection \<open>Reading and printing plain decimal numbers\<close>

text \<open>
  The texts that the examples of the numeric coercion use are plain decimal literals: an
  optional sign, digits, at most one point. \<open>parse_decimal\<close> reads exactly those, as
  \<open>pd.to_numeric\<close> does up to the rounding to a double; it stands for \<open>tn\<close> in the
  examples. \<open>show_int\<close> is \<open>str\<close> of an integer.
\<close>

definition is_digit :: "nat \<Rightarrow> bool" where
  "is_digit c \<longleftrightarrow> 48 \<le> c \<and> c \<le> 57"

definition digits_value :: "pystr \<Rightarrow> nat" where
  "digits_value ds = foldl (\<lambda>a c. 10 * a + (c - 48)) 0 ds"

definition parse_unsigned :: "pystr \<Rightarrow> rat option" where
  "parse_unsigned s =
     (let ip = takeWhile is_digit s; rest = dropWhile is_digit s in
      if rest = [] then (if ip = [] then None else Some (of_nat (digits_value ip)))
      else if hd rest = 46 \<and> list_all is_digit (tl rest) \<and> (ip \<noteq> [] \<or> tl rest \<noteq> []) then
        Some (of_nat (digits_value ip) + of_nat (digits_value (tl rest)) / 10 ^ length (tl rest))
      else None)"

definition parse_decimal :: "pystr \<Rightarrow> number option" where
  "parse_decimal s =
     (case s of
        [] \<Rightarrow> None
      | c # cs \<Rightarrow>
          if c = 45 then map_option (\<lambda>r. Fin (- r)) (parse_unsigned cs)
          else if c = 43 then map_option Fin (parse_unsigned cs)
          else map_option Fin (parse_unsigned s))"

fun show_nat :: "nat \<Rightarrow> pystr" where
  "show_nat n = (if n < 10 then [48 + n] else show_nat (n div 10) @ [48 + n mod 10])"

declare show_nat.simps [simp del]

definition show_int :: "int \<Rightarrow> pystr" where
  "show_int i = (if i < 0 then 45 # show_nat (nat (- i)) else show_nat (nat i))"

section \<open>Validation of an uploaded table: \<open>validate_csv_data\<close>\<close>

text \<open>The order of numbers.\<close>

fun num_le :: "number \<Rightarrow> number \<Rightarrow> bool" where
  "num_le NegInf y = True"
| "num_le (Fin a) NegInf = False"
| "num_le (Fin a) (Fin b) = (a \<le> b)"
| "num_le (Fin a) PosInf = True"
| "num_le PosInf y = (y = PosInf)"

text \<open>\<open>len(df)\<close>: the number of rows. All columns of a data frame have the same length.\<close>

definition nrows :: "table \<Rightarrow> nat" where
  "nrows df = (case df of [] \<Rightarrow> 0 | c # _ \<Rightarrow> length (snd c))"

text \<open>\<open>df.empty\<close>: no column or no row.\<close>

definition empty :: "table \<Rightarrow> bool" where
  "empty df \<longleftrightarrow> df = [] \<or> nrows df = 0"

definition is_text :: "cell \<Rightarrow> bool" where
  "is_text v = (case v of Text s \<Rightarrow> True | _ \<Rightarrow> False)"

definition numbers :: "cell list \<Rightarrow> number list" where
  "numbers vs = concat (map (\<lambda>v. case v of Number x \<Rightarrow> [x] | _ \<Rightarrow> []) vs)"

definition num_min :: "number \<Rightarrow> number \<Rightarrow> number" where
  "num_min x y = (if num_le x y then x else y)"

definition num_max :: "number \<Rightarrow> number \<Rightarrow> number" where
  "num_max x y = (if num_le x y then y else x)"

text \<open>
  \<open>-90 <= df[col].min() <= 90\<close> and its like, for the series \<open>vs\<close> and a reduction
  \<open>pick\<close> (minimum or maximum). Missing values are skipped, and the reduction of a
  series without numbers is NaN, for which every comparison is false. On a series that
  holds text either the reduction raises TypeError or it gives a text, whose comparison
  with the integer bound raises TypeError.
\<close>

definition bound_check ::
    "(number \<Rightarrow> number \<Rightarrow> number) \<Rightarrow> rat \<Rightarrow> rat \<Rightarrow> cell list \<Rightarrow> py_error + bool" where
  "bound_check pick lo hi vs =
     (if list_ex is_text vs then Inl TypeError
      else (case numbers vs of
              [] \<Rightarrow> Inr False
            | x # xs \<Rightarrow> let m = foldl pick x xs in Inr (num_le (Fin lo) m \<and> num_le m (Fin hi))))"

text \<open>
  \<open>not (lo <= df[col].min() <= hi) or not (lo <= df[col].max() <= hi)\<close>. With a repeated
  label \<open>df[col]\<close> is a data frame, its minimum is a series with one entry for each of
  those columns, and the truth value of the comparison raises ValueError.
\<close>

definition out_of_range :: "table \<Rightarrow> pystr \<Rightarrow> rat \<Rightarrow> rat \<Rightarrow> py_error + bool" where
  "out_of_range df col lo hi =
     (case series ValueError df col of
        Inl e \<Rightarrow> Inl e
      | Inr vs \<Rightarrow>
          (case bound_check num_min lo hi vs of
             Inl e \<Rightarrow> Inl e
           | Inr False \<Rightarrow> Inr True
           | Inr True \<Rightarrow>
               (case bound_check num_max lo hi vs of
                  Inl e \<Rightarrow> Inl e
                | Inr b \<Rightarrow> Inr (\<not> b))))"

definition validate_csv_data :: "table \<Rightarrow> pystr list option \<Rightarrow> py_error + bool \<times> pystr" where
  "validate_csv_data df required_cols =
     (if empty df then Inr (False, str ''CSV file is empty'')
      else
        let required = (case required_cols of
                          None \<Rightarrow> [str ''latitude'', str ''longitude'']
                        | Some cols \<Rightarrow> cols);
            missing_cols = filter (\<lambda>col. col \<notin> set (columns df)) required
        in
        if missing_cols \<noteq> [] then
          Inr (False, str ''Missing required columns: '' @ join (str '', '') missing_cols)
        else
          (case (if str ''latitude'' \<in> set (columns df)
                 then out_of_range df (str ''latitude'') (- 90) 90 else Inr False) of
             Inl e \<Rightarrow> Inl e
           | Inr True \<Rightarrow> Inr (False, str ''Latitude values must be between -90 and 90'')
           | Inr False \<Rightarrow>
               (case (if str ''longitude'' \<in> set (columns df)
                      then out_of_range df (str ''longitude'') (- 180) 180 else Inr False) of
                  Inl e \<Rightarrow> Inl e
                | Inr True \<Rightarrow> Inr (False, str ''Longitude values must be between -180 and 180'')
                | Inr False \<Rightarrow>
                    if nrows df > 50000 then
                      Inr (False, str ''File too large. Maximum 50,000 records allowed.'')
                    else Inr (True, str ''Data validation successful''))))"

section \<open>The user store\<close>

text \<open>
  A row of the table \<open>users\<close>. Times are abstract instants; \<open>last_login\<close> is nullable.
\<close>

record user =
  uid :: nat
  username :: pystr
  password_hash :: pystr
  is_admin :: bool
  created_at :: nat
  last_login :: "nat option"

text \<open>The table, in the order in which queries return its rows.\<close>

type_synonym store = "user list"

text \<open>\<open>db.query(User).filter(User.username == name).first()\<close>\<close>

definition query_first :: "store \<Rightarrow> pystr \<Rightarrow> user option" where
  "query_first db name =
     (case filter (\<lambda>u. username u = name) db of [] \<Rightarrow> None | u # _ \<Rightarrow> Some u)"

text \<open>The primary key of a new row: a value that no row has.\<close>

definition next_id :: "store \<Rightarrow> nat" where
  "next_id db = Suc (foldr max (map uid db) 0)"

text \<open>
  \<open>db.add(User(username=\<dots>, password_hash=\<dots>, is_admin=\<dots>)); db.commit()\<close>: the
  columns left out take their defaults, the creation time \<open>now\<close> and no last login.
\<close>

definition add_row :: "store \<Rightarrow> nat \<Rightarrow> pystr \<Rightarrow> pystr \<Rightarrow> bool \<Rightarrow> store" where
  "add_row db now name pwhash admin =
     db @ [\<lparr>uid = next_id db, username = name, password_hash = pwhash, is_admin = admin,
            created_at = now, last_login = None\<rparr>]"

text \<open>
  \<open>user.last_login = now; db.commit()\<close>: the update of the row with the primary key
  of \<open>user\<close>.
\<close>

definition commit_last_login :: "store \<Rightarrow> user \<Rightarrow> nat \<Rightarrow> store" where
  "commit_last_login db u now =
     map (\<lambda>r. if uid r = uid u then r\<lparr>last_login := Some now\<rparr> else r) db"

text \<open>
  \<open>hash_password\<close> is the SHA-256 digest in hexadecimal; the digest is the parameter
  \<open>sha256\<close>. \<open>now\<close> is the clock reading. The store is modelled as always reachable,
  so the \<open>except\<close> branches, which answer a failing connection, have no counterpart.
\<close>

definition hash_password :: "(pystr \<Rightarrow> pystr) \<Rightarrow> pystr \<Rightarrow> pystr" where
  "hash_password sha256 password = sha256 password"

definition init_database :: "(pystr \<Rightarrow> pystr) \<Rightarrow> nat \<Rightarrow> store \<Rightarrow> store" where
  "init_database sha256 now db =
     (case query_first db (str ''admin'') of
        None \<Rightarrow> add_row db now (str ''admin'') (hash_password sha256 (str ''admin123'')) True
      | Some admin_user \<Rightarrow> db)"

text \<open>The set-up script; it returns \<open>True\<close> when no exception occurred.\<close>

definition setup_database :: "(pystr \<Rightarrow> pystr) \<Rightarrow> nat \<Rightarrow> store \<Rightarrow> bool \<times> store" where
  "setup_database sha256 now db =
     (case query_first db (str ''admin'') of
        None \<Rightarrow> (True, add_row db now (str ''admin'') (hash_password sha256 (str ''admin123'')) True)
      | Some admin_user \<Rightarrow> (True, db))"

text \<open>
  \<open>authenticate_user\<close>: the returned pair (authenticated, is_admin) and the store
  afterwards. The update of \<open>last_login\<close> does not touch the column \<open>is_admin\<close>, so
  the value read after the commit is that of the row found.
\<close>

definition authenticate_user ::
    "(pystr \<Rightarrow> pystr) \<Rightarrow> nat \<Rightarrow> store \<Rightarrow> pystr \<Rightarrow> pystr \<Rightarrow> (bool \<times> bool) \<times> store" where
  "authenticate_user sha256 now db name password =
     (case query_first db name of
        None \<Rightarrow> ((False, False), db)
      | Some u \<Rightarrow>
          if password_hash u = hash_password sha256 password then
            ((True, is_admin u), commit_last_login db u now)
          else ((False, False), db))"

section \<open>Facts about the string primitives\<close>

lemma split_from_Nil_iff: "split_from cur s = [] \<longleftrightarrow> cur = [] \<and> (\<forall>c\<in>set s. isspace c)"
  by (induction s arbitrary: cur) auto

lemma split_Nil_iff: "split s = [] \<longleftrightarrow> (\<forall>c\<in>set s. isspace c)"
  by (simp add: split_def split_from_Nil_iff)

lemma dropWhile_all: "(\<forall>c\<in>set (dropWhile P s). P c) \<longleftrightarrow> (\<forall>c\<in>set s. P c)"
proof
  assume a: "\<forall>c\<in>set (dropWhile P s). P c"
  have "dropWhile P s = []"
  proof (rule ccontr)
    assume n: "dropWhile P s \<noteq> []"
    then have "\<not> P (hd (dropWhile P s))" by (rule hd_dropWhile)
    moreover have "hd (dropWhile P s) \<in> set (dropWhile P s)" using n by simp
    ultimately show False using a by blast
  qed
  then show "\<forall>c\<in>set s. P c" by (simp add: dropWhile_eq_Nil_conv)
next
  assume "\<forall>c\<in>set s. P c"
  then show "\<forall>c\<in>set (dropWhile P s). P c" using set_dropWhileD by fastforce
qed

lemma strip_Nil_iff: "strip s = [] \<longleftrightarrow> (\<forall>c\<in>set s. isspace c)"
proof -
  have "strip s = [] \<longleftrightarrow> (\<forall>c\<in>set (rev (dropWhile isspace s)). isspace c)"
    by (simp add: strip_def dropWhile_eq_Nil_conv del: set_rev)
  also have "\<dots> \<longleftrightarrow> (\<forall>c\<in>set s. isspace c)"
    by (simp add: dropWhile_all)
  finally show ?thesis .
qed

lemma dropWhile_id: "xs \<noteq> [] \<Longrightarrow> \<not> P (hd xs) \<Longrightarrow> dropWhile P xs = xs"
  by (cases xs) auto

lemma strip_fixed:
  assumes "s \<noteq> []" "\<not> isspace (hd s)" "\<not> isspace (last s)"
  shows "strip s = s"
proof -
  have 1: "dropWhile isspace s = s" using assms by (simp add: dropWhile_id)
  have "dropWhile isspace (rev s) = rev s"
    using assms by (intro dropWhile_id) (simp_all add: hd_rev)
  with 1 show ?thesis by (simp add: strip_def)
qed

lemma strip_ends:
  assumes "strip s \<noteq> []"
  shows "\<not> isspace (hd (strip s))" and "\<not> isspace (last (strip s))"
proof -
  let ?d = "dropWhile isspace s"
  let ?e = "dropWhile isspace (rev ?d)"
  from assms have e: "?e \<noteq> []" by (simp add: strip_def)
  then have d: "?d \<noteq> []" by (metis dropWhile.simps(1) rev.simps(1))
  have l: "\<not> isspace (hd ?e)" using e by (rule hd_dropWhile)
  have "last (strip s) = hd ?e" using e by (simp add: strip_def last_rev)
  with l show "\<not> isspace (last (strip s))" by simp
  have "\<not> isspace (hd ?d)" using d by (rule hd_dropWhile)
  moreover have "hd (strip s) = hd ?d"
  proof -
    have "rev ?d = takeWhile isspace (rev ?d) @ ?e" by simp
    then have "?d = rev ?e @ rev (takeWhile isspace (rev ?d))"
      by (metis rev_append rev_rev_ident)
    then have "hd ?d = hd (rev ?e)" using e by (metis hd_append2 rev_is_Nil_conv)
    then show ?thesis by (simp add: strip_def)
  qed
  ultimately show "\<not> isspace (hd (strip s))" by simp
qed

lemma strip_strip: "strip (strip s) = strip s"
proof (cases "strip s = []")
  case True
  have "strip [] = []" by (simp add: strip_def)
  with True show ?thesis by simp
next
  case False
  then show ?thesis by (intro strip_fixed strip_ends)
qed

lemma nonblank_lines_tokens: "l \<in> set (nonblank_lines t) \<Longrightarrow> split l \<noteq> []"
proof -
  assume "l \<in> set (nonblank_lines t)"
  then obtain x where "l = strip x" "strip x \<noteq> []" by (auto simp: nonblank_lines_def)
  then have "strip l \<noteq> []" by (simp add: strip_strip)
  then show ?thesis by (simp add: split_Nil_iff strip_Nil_iff)
qed

section \<open>The parse loop\<close>

lemma extract_record_Inr:
  assumes "i + 8 \<le> length lines" and "split (lines ! (i + 1)) = tok # toks"
  shows "extract_record lines i =
     Inr \<lparr>LGA = lines ! i, HASC = tok, State = join (str '' '') toks,
          Capital = lines ! (i + 2), Population = remove_whitespace (lines ! (i + 3)),
          Latitude = lines ! (i + 4), Longitude = lines ! (i + 5),
          AreaKm = lines ! (i + 6), Density = lines ! (i + 7)\<rparr>"
  using assms by (simp add: extract_record_def index_def)

lemma extract_record_short:
  assumes "length lines < i + 8" and "\<forall>l\<in>set lines. split l \<noteq> []"
  shows "extract_record lines i = Inl IndexError"
proof -
  have tok: "j < length lines \<Longrightarrow> index (split (lines ! j)) 0 = Inr (hd (split (lines ! j)))" for j
    using assms(2) by (cases "split (lines ! j)") (auto simp: index_def)
  show ?thesis
    using assms(1) by (auto simp: extract_record_def index_def Let_def tok split: sum.splits)
qed

lemma extract_record_Inr_ex:
  assumes "i + 8 \<le> length lines" and "\<forall>l\<in>set lines. split l \<noteq> []"
  shows "\<exists>r. extract_record lines i = Inr r"
proof -
  have "lines ! (i + 1) \<in> set lines" using assms(1) by simp
  then obtain tok toks where "split (lines ! (i + 1)) = tok # toks"
    using assms(2) by (cases "split (lines ! (i + 1))") auto
  from extract_record_Inr[OF assms(1) this] show ?thesis by blast
qed

lemma cursors_Suc:
  "map (\<lambda>k. i + 8 * k) [0..<Suc m] = i # map (\<lambda>k. (i + 8) + 8 * k) [0..<m]"
  by (induction m) auto

lemma parse_loop_cursors:
  assumes "\<forall>l\<in>set lines. split l \<noteq> []"
  shows "map Inr (parse_loop lines i records) =
     map Inr records @ map (extract_record lines) (map (\<lambda>k. i + 8 * k) [0..<(length lines - i) div 8])"
  using assms
proof (induction lines i records rule: parse_loop.induct)
  case (1 lines i records)
  note tok = \<open>\<forall>l\<in>set lines. split l \<noteq> []\<close>
  show ?case
  proof (cases "i + 8 \<le> length lines")
    case True
    then obtain r where r: "extract_record lines i = Inr r"
      using extract_record_Inr_ex tok by blast
    from True have lt: "i < length lines" by simp
    have step: "parse_loop lines i records = parse_loop lines (i + 8) (records @ [r])"
      by (subst parse_loop.simps) (simp add: lt r)
    from True have "(length lines - i) div 8 = Suc ((length lines - (i + 8)) div 8)"
      by (simp add: le_div_geq)
    then have cur: "map (\<lambda>k. i + 8 * k) [0..<(length lines - i) div 8] =
        i # map (\<lambda>k. (i + 8) + 8 * k) [0..<(length lines - (i + 8)) div 8]"
      by (simp only: cursors_Suc)
    show ?thesis
      unfolding step cur using "1.IH"(2)[OF lt r tok] by (simp add: r)
  next
    case False
    then have short: "length lines < i + 8" by simp
    then have d: "(length lines - i) div 8 = 0" by simp
    show ?thesis
    proof (cases "i < length lines")
      case lt: True
      have e: "extract_record lines i = Inl IndexError"
        using extract_record_short[OF short tok] .
      have step: "parse_loop lines i records = parse_loop lines (i + 1) records"
        by (subst parse_loop.simps) (simp add: lt e)
      from short have d1: "(length lines - (i + 1)) div 8 = 0" by simp
      show ?thesis
        unfolding step using "1.IH"(1)[OF lt e tok] d d1 by simp
    next
      case False
      then have "parse_loop lines i records = records"
        by (subst parse_loop.simps) simp
      then show ?thesis by (simp add: d)
    qed
  qed
qed

lemma parse_loop_length:
  assumes "\<forall>l\<in>set lines. split l \<noteq> []"
  shows "length (parse_loop lines i records) = length records + (length lines - i) div 8"
proof -
  have "length (map (Inr :: lga_record \<Rightarrow> py_error + lga_record) (parse_loop lines i records)) = length records + (length lines - i) div 8"
    by (simp only: parse_loop_cursors[OF assms]) simp
  then show ?thesis by simp
qed

lemma parse_loop_nth:
  assumes "\<forall>l\<in>set lines. split l \<noteq> []" and "k < length lines div 8"
  shows "extract_record lines (8 * k) = Inr (parse_loop lines 0 [] ! k)"
proof -
  have "map Inr (parse_loop lines 0 []) ! k = (map (extract_record lines) (map (\<lambda>k. 0 + 8 * k) [0..<(length lines - 0) div 8])) ! k"
    by (simp only: parse_loop_cursors[OF assms(1)]) simp
  moreover have "k < length (parse_loop lines 0 [])" using assms by (simp add: parse_loop_length)
  ultimately show ?thesis using assms(2) by simp
qed




lemma extract_record_eq:
  "extract_record lines i =
     (if i + 8 \<le> length lines \<and> split (lines ! (i + 1)) \<noteq> [] then
         Inr \<lparr>LGA = lines ! i, HASC = hd (split (lines ! (i + 1))),
              State = join (str '' '') (tl (split (lines ! (i + 1)))),
              Capital = lines ! (i + 2), Population = remove_whitespace (lines ! (i + 3)),
              Latitude = lines ! (i + 4), Longitude = lines ! (i + 5),
              AreaKm = lines ! (i + 6), Density = lines ! (i + 7)\<rparr>
      else Inl IndexError)"
proof (cases "i + 8 \<le> length lines")
  case True
  then show ?thesis
    by (cases "split (lines ! (i + 1))") (simp_all add: extract_record_def index_def)
next
  case False
  then show ?thesis
    by (auto simp: extract_record_def index_def Let_def split: sum.splits)
qed

lemma extract_record_append1:
  assumes "i + 8 \<le> length A"
  shows "extract_record (A @ R) i = extract_record A i"
  using assms by (simp add: extract_record_eq nth_append)

lemma extract_record_append2:
  "extract_record (A @ R) (length A + i) = extract_record R i"
  by (simp add: extract_record_eq nth_append add.assoc)

lemma parse_loop_all_fail:
  assumes "\<forall>j<length lines. \<exists>e. extract_record lines j = Inl e"
  shows "parse_loop lines i records = records"
  using assms
proof (induction lines i records rule: parse_loop.induct)
  case (1 lines i records)
  show ?case
  proof (cases "i < length lines")
    case True
    then obtain e where e: "extract_record lines i = Inl e" using "1.prems" by blast
    have "parse_loop lines i records = parse_loop lines (i + 1) records"
      by (subst parse_loop.simps) (simp add: True e)
    then show ?thesis using "1.IH"(1)[OF True e "1.prems"] by simp
  next
    case False
    then show ?thesis by (subst parse_loop.simps) simp
  qed
qed

lemma cursors_append:
  "map (\<lambda>k. 8 * k) [0..<a + m] = map (\<lambda>k. 8 * k) [0..<a] @ map (\<lambda>k. 8 * a + 8 * k) [0..<m]"
  by (induction m) (simp_all add: distrib_left)

lemma parse_loop_append:
  assumes tok: "\<forall>l\<in>set (A @ R). split l \<noteq> []" and len: "length A = 8 * a"
  shows "parse_loop (A @ R) 0 [] = parse_loop A 0 [] @ parse_loop R 0 []"
proof -
  have tokA: "\<forall>l\<in>set A. split l \<noteq> []" and tokR: "\<forall>l\<in>set R. split l \<noteq> []"
    using tok by auto
  let ?m = "length R div 8"
  have d: "length (A @ R) div 8 = a + ?m" using len by simp
  have 1: "map (extract_record (A @ R)) (map (\<lambda>k. 8 * k) [0..<a]) =
           map (extract_record A) (map (\<lambda>k. 8 * k) [0..<a])"
    using len by (simp add: extract_record_append1)
  have 2: "map (extract_record (A @ R)) (map (\<lambda>k. 8 * a + 8 * k) [0..<?m]) =
           map (extract_record R) (map (\<lambda>k. 8 * k) [0..<?m])"
    using extract_record_append2[of A R] len by simp
  have P: "map Inr (parse_loop ls 0 []) = map (extract_record ls) (map (\<lambda>k. 8 * k) [0..<length ls div 8])"
    if "\<forall>l\<in>set ls. split l \<noteq> []" for ls
    using parse_loop_cursors[OF that, of 0 "[]"] by simp
  have "map Inr (parse_loop (A @ R) 0 []) =
        map (extract_record (A @ R)) (map (\<lambda>k. 8 * k) [0..<a + ?m])"
    unfolding P[OF tok] d ..
  also have "\<dots> = map (extract_record A) (map (\<lambda>k. 8 * k) [0..<a]) @
                   map (extract_record R) (map (\<lambda>k. 8 * k) [0..<?m])"
    unfolding cursors_append map_append 1 2 ..
  also have "\<dots> = map Inr (parse_loop A 0 []) @ map Inr (parse_loop R 0 [])"
    unfolding P[OF tokA] P[OF tokR] using len by simp
  finally have "map (Inr :: lga_record \<Rightarrow> py_error + lga_record) (parse_loop (A @ R) 0 []) =
     map Inr (parse_loop A 0 [] @ parse_loop R 0 [])" by simp
  then show ?thesis by (rule map_injective) (rule inj_Inr)
qed

section \<open>Claims about the block parser\<close>






text \<open>
  Claim C10. When the second line of the \<open>k\<close>-th block of eight non-blank lines is a
  single token, the block is not skipped: extraction at cursor \<open>8k\<close> succeeds and gives
  the \<open>k\<close>-th record of the result, whose HASC is that token and whose State is the
  empty string.
\<close>

theorem single_token_second_line:
  assumes k: "k < length (nonblank_lines raw_text) div 8"
    and one: "split (nonblank_lines raw_text ! (8 * k + 1)) = [tok]"
  shows "k < length (parse_lga_text raw_text) \<and>
     extract_record (nonblank_lines raw_text) (8 * k) = Inr (parse_lga_text raw_text ! k) \<and>
     HASC (parse_lga_text raw_text ! k) = tok \<and>
     State (parse_lga_text raw_text ! k) = []"
proof -
  let ?ls = "nonblank_lines raw_text"
  have tok: "\<forall>l\<in>set ?ls. split l \<noteq> []" using nonblank_lines_tokens by blast
  have 1: "k < length (parse_lga_text raw_text)"
    using k by (simp add: parse_lga_text_def parse_loop_length[OF tok])
  have 2: "extract_record ?ls (8 * k) = Inr (parse_lga_text raw_text ! k)"
    using parse_loop_nth[OF tok k] by (simp add: parse_lga_text_def)
  from k have b: "8 * k + 8 \<le> length ?ls" by simp
  from extract_record_Inr[OF b one] 2
  have "HASC (parse_lga_text raw_text ! k) = tok \<and> State (parse_lga_text raw_text ! k) = []"
    by simp
  with 1 2 show ?thesis by blast
qed

text \<open>A block with the one-token line \<open>LA\<close> for C10.\<close>

theorem single_token_second_line_witness:
  "0 < length (nonblank_lines (str ''Lagos\<newline>LA\<newline>Ikeja\<newline>9 000\<newline>6.5\<newline>3.3\<newline>1\<newline>2'')) div 8 \<and>
   split (nonblank_lines (str ''Lagos\<newline>LA\<newline>Ikeja\<newline>9 000\<newline>6.5\<newline>3.3\<newline>1\<newline>2'') ! (8 * 0 + 1)) = [str ''LA''] \<and>
   0 < length (parse_lga_text (str ''Lagos\<newline>LA\<newline>Ikeja\<newline>9 000\<newline>6.5\<newline>3.3\<newline>1\<newline>2'')) \<and>
   HASC (parse_lga_text (str ''Lagos\<newline>LA\<newline>Ikeja\<newline>9 000\<newline>6.5\<newline>3.3\<newline>1\<newline>2'') ! 0) = str ''LA'' \<and>
   State (parse_lga_text (str ''Lagos\<newline>LA\<newline>Ikeja\<newline>9 000\<newline>6.5\<newline>3.3\<newline>1\<newline>2'') ! 0) = []"
proof -
  let ?t = "str ''Lagos\<newline>LA\<newline>Ikeja\<newline>9 000\<newline>6.5\<newline>3.3\<newline>1\<newline>2''"
  have nl: "nonblank_lines ?t = [str ''Lagos'', str ''LA'', str ''Ikeja'', str ''9 000'',
      str ''6.5'', str ''3.3'', str ''1'', str ''2'']"
    by (simp add: str_def nonblank_lines_def splitlines_def is_linebreak_def strip_def isspace_def)
  have h1: "0 < length (nonblank_lines ?t) div 8" by (simp add: nl)
  have h2: "split (nonblank_lines ?t ! (8 * 0 + 1)) = [str ''LA'']"
    by (simp add: nl) (simp add: str_def split_def isspace_def)
  from single_token_second_line[OF h1 h2] h1 h2 show ?thesis by simp
qed

text \<open>
  Blank lines are removed before the loop, so every line has a token and extraction can
  only raise when fewer than eight lines remain: the cursor moves by one only in the
  last seven positions.
\<close>

lemma extract_record_fails_only_at_end:
  assumes "extract_record (nonblank_lines raw_text) c = Inl e"
  shows "length (nonblank_lines raw_text) < c + 8" and "e = IndexError"
proof -
  have tok: "\<forall>l\<in>set (nonblank_lines raw_text). split l \<noteq> []"
    using nonblank_lines_tokens by blast
  show "length (nonblank_lines raw_text) < c + 8"
  proof (rule ccontr)
    assume "\<not> length (nonblank_lines raw_text) < c + 8"
    then have "c + 8 \<le> length (nonblank_lines raw_text)" by simp
    from extract_record_Inr_ex[OF this tok] assms show False by auto
  qed
  from extract_record_short[OF this tok] assms show "e = IndexError" by simp
qed

lemma parse_loop_short:
  assumes "\<forall>l\<in>set lines. split l \<noteq> []" and "length lines < c + 8"
  shows "parse_loop lines c records = records"
proof -
  from assms(2) have "(length lines - c) div 8 = 0" by simp
  then have "map (Inr :: lga_record \<Rightarrow> py_error + lga_record) (parse_loop lines c records) = map Inr records"
    using parse_loop_cursors[OF assms(1), of c records] by simp
  then show ?thesis by (rule map_injective) (rule inj_Inr)
qed

lemma parse_loop_drop_rest:
  assumes tok: "\<forall>l\<in>set lines. split l \<noteq> []"
  shows "parse_loop lines 0 [] = parse_loop (take (8 * (length lines div 8)) lines) 0 []"
proof -
  let ?A = "take (8 * (length lines div 8)) lines"
  let ?R = "drop (8 * (length lines div 8)) lines"
  have l: "lines = ?A @ ?R" by simp
  have lenA: "length ?A = 8 * (length lines div 8)" by simp
  have tok': "\<forall>l\<in>set (?A @ ?R). split l \<noteq> []" using tok by simp
  have tokR: "\<forall>l\<in>set ?R. split l \<noteq> []" using tok by (auto dest: in_set_dropD)
  have "length ?R = length lines mod 8"
    by (simp add: minus_mult_div_eq_mod)
  then have "length ?R < 0 + 8" by simp
  then have R: "parse_loop ?R 0 [] = []" by (rule parse_loop_short[OF tokR])
  have "parse_loop (?A @ ?R) 0 [] = parse_loop ?A 0 [] @ parse_loop ?R 0 []"
    by (rule parse_loop_append[OF tok' lenA])
  then show ?thesis by (simp add: R)
qed

lemma parse_loop_two:
  assumes tok: "\<forall>l\<in>set lines. split l \<noteq> []"
    and len: "length lines div 8 = 2"
    and r0: "extract_record lines 0 = Inr r0"
    and r1: "extract_record lines 8 = Inr r1"
  shows "parse_loop lines 0 [] = [r0, r1]"
proof -
  have "[0..<2] = [0, Suc 0]" by (simp add: upt_rec)
  then have "map (Inr :: lga_record \<Rightarrow> py_error + lga_record) (parse_loop lines 0 []) = map Inr [r0, r1]"
    using parse_loop_cursors[OF tok, of 0 "[]"] len r0 r1 by simp
  then show ?thesis by (rule map_injective) (rule inj_Inr)
qed

lemma parse_loop_one:
  assumes tok: "\<forall>l\<in>set lines. split l \<noteq> []"
    and len: "length lines div 8 = 1"
    and r0: "extract_record lines 0 = Inr r0"
  shows "parse_loop lines 0 [] = [r0]"
proof -
  have "map (Inr :: lga_record \<Rightarrow> py_error + lga_record) (parse_loop lines 0 []) = map Inr [r0]"
    using parse_loop_cursors[OF tok, of 0 "[]"] len r0 by simp
  then show ?thesis by (rule map_injective) (rule inj_Inr)
qed

text \<open>
  Against claim C2 as stated. The input is a well-formed block, then a block that lacks
  its last line (seven lines), then a second well-formed block \<open>B1 \<dots> b8\<close>. No
  extraction raises before the end, the cursor stays on multiples of eight, and the
  second record is read from the seven lines of the short block and the first line of the
  following block. The seven remaining lines of that block are fewer than eight: each
  cursor among them raises and they are dropped. The following well-formed block gives
  no record, although parsed alone it gives one. Eight lines of junk, on the other
  hand, are parsed into a record.
\<close>

theorem parse_lga_text_following_block_lost:
  "parse_lga_text (str ''A1\<newline>AA Abia\<newline>a3\<newline>1 000\<newline>a5\<newline>a6\<newline>a7\<newline>a8\<newline>m1\<newline>MM Mid\<newline>m3\<newline>m4\<newline>m5\<newline>m6\<newline>m7\<newline>B1\<newline>BB Benue\<newline>b3\<newline>2 000\<newline>b5\<newline>b6\<newline>b7\<newline>b8'') =
     [\<lparr>LGA = str ''A1'', HASC = str ''AA'', State = str ''Abia'', Capital = str ''a3'',
       Population = str ''1000'', Latitude = str ''a5'', Longitude = str ''a6'',
       AreaKm = str ''a7'', Density = str ''a8''\<rparr>,
      \<lparr>LGA = str ''m1'', HASC = str ''MM'', State = str ''Mid'', Capital = str ''m3'',
       Population = str ''m4'', Latitude = str ''m5'', Longitude = str ''m6'',
       AreaKm = str ''m7'', Density = str ''B1''\<rparr>] \<and>
   parse_lga_text (str ''B1\<newline>BB Benue\<newline>b3\<newline>2 000\<newline>b5\<newline>b6\<newline>b7\<newline>b8'') =
     [\<lparr>LGA = str ''B1'', HASC = str ''BB'', State = str ''Benue'', Capital = str ''b3'',
       Population = str ''2000'', Latitude = str ''b5'', Longitude = str ''b6'',
       AreaKm = str ''b7'', Density = str ''b8''\<rparr>] \<and>
   \<lparr>LGA = str ''B1'', HASC = str ''BB'', State = str ''Benue'', Capital = str ''b3'',
       Population = str ''2000'', Latitude = str ''b5'', Longitude = str ''b6'',
       AreaKm = str ''b7'', Density = str ''b8''\<rparr>
     \<notin> set (parse_lga_text (str ''A1\<newline>AA Abia\<newline>a3\<newline>1 000\<newline>a5\<newline>a6\<newline>a7\<newline>a8\<newline>m1\<newline>MM Mid\<newline>m3\<newline>m4\<newline>m5\<newline>m6\<newline>m7\<newline>B1\<newline>BB Benue\<newline>b3\<newline>2 000\<newline>b5\<newline>b6\<newline>b7\<newline>b8'')) \<and>
   parse_lga_text (str ''??\<newline>??\<newline>??\<newline>??\<newline>??\<newline>??\<newline>??\<newline>??'') =
     [\<lparr>LGA = str ''??'', HASC = str ''??'', State = [], Capital = str ''??'',
       Population = str ''??'', Latitude = str ''??'', Longitude = str ''??'',
       AreaKm = str ''??'', Density = str ''??''\<rparr>]"
proof -
  let ?t = "str ''A1\<newline>AA Abia\<newline>a3\<newline>1 000\<newline>a5\<newline>a6\<newline>a7\<newline>a8\<newline>m1\<newline>MM Mid\<newline>m3\<newline>m4\<newline>m5\<newline>m6\<newline>m7\<newline>B1\<newline>BB Benue\<newline>b3\<newline>2 000\<newline>b5\<newline>b6\<newline>b7\<newline>b8''"
  let ?b = "str ''B1\<newline>BB Benue\<newline>b3\<newline>2 000\<newline>b5\<newline>b6\<newline>b7\<newline>b8''"
  let ?j = "str ''??\<newline>??\<newline>??\<newline>??\<newline>??\<newline>??\<newline>??\<newline>??''"
  let ?rA = "\<lparr>LGA = str ''A1'', HASC = str ''AA'', State = str ''Abia'', Capital = str ''a3'',
       Population = str ''1000'', Latitude = str ''a5'', Longitude = str ''a6'',
       AreaKm = str ''a7'', Density = str ''a8''\<rparr>"
  let ?rM = "\<lparr>LGA = str ''m1'', HASC = str ''MM'', State = str ''Mid'', Capital = str ''m3'',
       Population = str ''m4'', Latitude = str ''m5'', Longitude = str ''m6'',
       AreaKm = str ''m7'', Density = str ''B1''\<rparr>"
  let ?rB = "\<lparr>LGA = str ''B1'', HASC = str ''BB'', State = str ''Benue'', Capital = str ''b3'',
       Population = str ''2000'', Latitude = str ''b5'', Longitude = str ''b6'',
       AreaKm = str ''b7'', Density = str ''b8''\<rparr>"
  let ?rJ = "\<lparr>LGA = str ''??'', HASC = str ''??'', State = [], Capital = str ''??'',
       Population = str ''??'', Latitude = str ''??'', Longitude = str ''??'',
       AreaKm = str ''??'', Density = str ''??''\<rparr>"
  have tok: "\<forall>l\<in>set (nonblank_lines x). split l \<noteq> []" for x
    using nonblank_lines_tokens by blast
  have nt: "nonblank_lines ?t = [str ''A1'', str ''AA Abia'', str ''a3'', str ''1 000'', str ''a5'',
      str ''a6'', str ''a7'', str ''a8'', str ''m1'', str ''MM Mid'', str ''m3'', str ''m4'',
      str ''m5'', str ''m6'', str ''m7'', str ''B1'', str ''BB Benue'', str ''b3'', str ''2 000'',
      str ''b5'', str ''b6'', str ''b7'', str ''b8'']"
    by (simp add: str_def nonblank_lines_def splitlines_def is_linebreak_def strip_def isspace_def)
  have nb: "nonblank_lines ?b = [str ''B1'', str ''BB Benue'', str ''b3'', str ''2 000'',
      str ''b5'', str ''b6'', str ''b7'', str ''b8'']"
    by (simp add: str_def nonblank_lines_def splitlines_def is_linebreak_def strip_def isspace_def)
  have nj: "nonblank_lines ?j = [str ''??'', str ''??'', str ''??'', str ''??'', str ''??'',
      str ''??'', str ''??'', str ''??'']"
    by (simp add: str_def nonblank_lines_def splitlines_def is_linebreak_def strip_def isspace_def)
  have sp: "split (str ''AA Abia'') = [str ''AA'', str ''Abia'']"
      "split (str ''MM Mid'') = [str ''MM'', str ''Mid'']"
      "split (str ''BB Benue'') = [str ''BB'', str ''Benue'']"
      "split (str ''??'') = [str ''??'']"
    by (simp_all add: str_def split_def isspace_def)
  have rw: "remove_whitespace (str ''1 000'') = str ''1000''"
      "remove_whitespace (str ''m4'') = str ''m4''"
      "remove_whitespace (str ''2 000'') = str ''2000''"
      "remove_whitespace (str ''??'') = str ''??''"
    by (simp_all add: str_def remove_whitespace_def isspace_def)
  have e0: "extract_record (nonblank_lines ?t) 0 = Inr ?rA"
    unfolding nt by (simp add: extract_record_eq sp rw)
  have e8: "extract_record (nonblank_lines ?t) 8 = Inr ?rM"
    unfolding nt by (simp add: extract_record_eq sp rw)
  have eb: "extract_record (nonblank_lines ?b) 0 = Inr ?rB"
    unfolding nb by (simp add: extract_record_eq sp rw)
  have ej: "extract_record (nonblank_lines ?j) 0 = Inr ?rJ"
    unfolding nj by (simp add: extract_record_eq sp rw)
  have 1: "parse_lga_text ?t = [?rA, ?rM]"
    unfolding parse_lga_text_def
    by (rule parse_loop_two[OF tok _ e0 e8]) (simp add: nt)
  have 2: "parse_lga_text ?b = [?rB]"
    unfolding parse_lga_text_def
    by (rule parse_loop_one[OF tok _ eb]) (simp add: nb)
  have 3: "parse_lga_text ?j = [?rJ]"
    unfolding parse_lga_text_def
    by (rule parse_loop_one[OF tok _ ej]) (simp add: nj)
  have 4: "?rB \<notin> set (parse_lga_text ?t)"
    unfolding 1 by (simp add: str_def)
  from 1 2 4 3 show ?thesis by simp
qed

text \<open>
  Claim C2, amended. When extraction at cursor \<open>i\<close> raises, the loop goes on from cursor
  \<open>i + 1\<close> with the records unchanged. Blank lines are removed first, so on the lines
  of an input extraction raises only when fewer than eight lines remain, always with
  IndexError, and no record is added from there on: the parser never finds a new block
  start after a failure. The result therefore has one record for each complete group of
  eight consecutive non-blank lines counted from the start, record \<open>k\<close> read from lines
  \<open>8k \<dots> 8k+7\<close>, and it does not depend on the lines left over at the end. When the
  non-blank lines are \<open>a\<close> blocks of eight, then any lines \<open>M\<close>, then lines \<open>B\<close>, the
  result is the \<open>a\<close> records of the leading blocks followed by the records read from \<open>M\<close>
  and \<open>B\<close> as one run, in groups of eight that start at \<open>M\<close>; a block of \<open>B\<close> is
  read as a record of its own only if such a group starts at it. The result is empty
  exactly when there are fewer than eight non-blank lines. The parser is a total
  function: it always returns a list.
\<close>

theorem parse_lga_text_resync:
  "(i < length lines \<and> extract_record lines i = Inl e \<longrightarrow>
      parse_loop lines i records = parse_loop lines (i + 1) records) \<and>
   (extract_record (nonblank_lines raw_text) c = Inl e' \<longrightarrow>
      length (nonblank_lines raw_text) < c + 8 \<and> e' = IndexError \<and>
      parse_loop (nonblank_lines raw_text) c records = records) \<and>
   length (parse_lga_text raw_text) = length (nonblank_lines raw_text) div 8 \<and>
   (\<forall>k<length (nonblank_lines raw_text) div 8.
      extract_record (nonblank_lines raw_text) (8 * k) = Inr (parse_lga_text raw_text ! k) \<and>
      LGA (parse_lga_text raw_text ! k) = nonblank_lines raw_text ! (8 * k) \<and>
      Density (parse_lga_text raw_text ! k) = nonblank_lines raw_text ! (8 * k + 7)) \<and>
   parse_lga_text raw_text =
      parse_loop (take (8 * (length (nonblank_lines raw_text) div 8)) (nonblank_lines raw_text)) 0 [] \<and>
   (nonblank_lines raw_text = A @ M @ B \<and> length A = 8 * a \<longrightarrow>
      parse_lga_text raw_text = parse_loop A 0 [] @ parse_loop (M @ B) 0 [] \<and>
      length (parse_loop A 0 []) = a \<and>
      length (parse_loop (M @ B) 0 []) = (length M + length B) div 8 \<and>
      (\<forall>k<(length M + length B) div 8.
         extract_record (M @ B) (8 * k) = Inr (parse_loop (M @ B) 0 [] ! k))) \<and>
   (parse_lga_text raw_text = [] \<longleftrightarrow> length (nonblank_lines raw_text) < 8)"
proof -
  let ?ls = "nonblank_lines raw_text"
  have tok: "\<forall>l\<in>set ?ls. split l \<noteq> []" using nonblank_lines_tokens by blast
  have 1: "i < length lines \<and> extract_record lines i = Inl e \<longrightarrow>
      parse_loop lines i records = parse_loop lines (i + 1) records"
    by (subst parse_loop.simps) simp
  have 2: "extract_record ?ls c = Inl e' \<longrightarrow>
      length ?ls < c + 8 \<and> e' = IndexError \<and> parse_loop ?ls c records = records"
  proof
    assume f: "extract_record ?ls c = Inl e'"
    have s: "length ?ls < c + 8" by (rule extract_record_fails_only_at_end(1)[OF f])
    have "e' = IndexError" by (rule extract_record_fails_only_at_end(2)[OF f])
    moreover have "parse_loop ?ls c records = records" by (rule parse_loop_short[OF tok s])
    ultimately show "length ?ls < c + 8 \<and> e' = IndexError \<and> parse_loop ?ls c records = records"
      using s by blast
  qed
  have 3: "length (parse_lga_text raw_text) = length ?ls div 8"
    by (simp add: parse_lga_text_def parse_loop_length[OF tok])
  have 4: "\<forall>k<length ?ls div 8.
      extract_record ?ls (8 * k) = Inr (parse_lga_text raw_text ! k) \<and>
      LGA (parse_lga_text raw_text ! k) = ?ls ! (8 * k) \<and>
      Density (parse_lga_text raw_text ! k) = ?ls ! (8 * k + 7)"
  proof (intro allI impI)
    fix k assume k: "k < length ?ls div 8"
    have x: "extract_record ?ls (8 * k) = Inr (parse_lga_text raw_text ! k)"
      using parse_loop_nth[OF tok k] by (simp add: parse_lga_text_def)
    from k have b: "8 * k + 8 \<le> length ?ls" by simp
    then have "?ls ! (8 * k + 1) \<in> set ?ls" by simp
    with tok have "split (?ls ! (8 * k + 1)) \<noteq> []" by blast
    with b x have "\<exists>h s cp p la lo ar. parse_lga_text raw_text ! k =
        \<lparr>LGA = ?ls ! (8 * k), HASC = h, State = s, Capital = cp, Population = p,
         Latitude = la, Longitude = lo, AreaKm = ar, Density = ?ls ! (8 * k + 7)\<rparr>"
      by (simp add: extract_record_eq) metis
    then have "LGA (parse_lga_text raw_text ! k) = ?ls ! (8 * k) \<and>
      Density (parse_lga_text raw_text ! k) = ?ls ! (8 * k + 7)"
      by auto
    with x show "extract_record ?ls (8 * k) = Inr (parse_lga_text raw_text ! k) \<and>
      LGA (parse_lga_text raw_text ! k) = ?ls ! (8 * k) \<and>
      Density (parse_lga_text raw_text ! k) = ?ls ! (8 * k + 7)" by blast
  qed
  have 5: "parse_lga_text raw_text = parse_loop (take (8 * (length ?ls div 8)) ?ls) 0 []"
    unfolding parse_lga_text_def by (rule parse_loop_drop_rest[OF tok])
  have 6: "?ls = A @ M @ B \<and> length A = 8 * a \<longrightarrow>
      parse_lga_text raw_text = parse_loop A 0 [] @ parse_loop (M @ B) 0 [] \<and>
      length (parse_loop A 0 []) = a \<and>
      length (parse_loop (M @ B) 0 []) = (length M + length B) div 8 \<and>
      (\<forall>k<(length M + length B) div 8.
         extract_record (M @ B) (8 * k) = Inr (parse_loop (M @ B) 0 [] ! k))"
  proof
    assume h: "?ls = A @ M @ B \<and> length A = 8 * a"
    have tok': "\<forall>l\<in>set (A @ M @ B). split l \<noteq> []" using tok h by simp
    then have tokA: "\<forall>l\<in>set A. split l \<noteq> []" and tokR: "\<forall>l\<in>set (M @ B). split l \<noteq> []"
      by auto
    have a: "parse_lga_text raw_text = parse_loop A 0 [] @ parse_loop (M @ B) 0 []"
      using parse_loop_append[OF tok', of a] h by (simp add: parse_lga_text_def)
    have b: "length (parse_loop A 0 []) = a"
      using h by (simp add: parse_loop_length[OF tokA])
    have c: "length (parse_loop (M @ B) 0 []) = (length M + length B) div 8"
      by (simp add: parse_loop_length[OF tokR])
    have d: "\<forall>k<(length M + length B) div 8.
         extract_record (M @ B) (8 * k) = Inr (parse_loop (M @ B) 0 [] ! k)"
      using parse_loop_nth[OF tokR] by simp
    from a b c d show "parse_lga_text raw_text = parse_loop A 0 [] @ parse_loop (M @ B) 0 [] \<and>
      length (parse_loop A 0 []) = a \<and>
      length (parse_loop (M @ B) 0 []) = (length M + length B) div 8 \<and>
      (\<forall>k<(length M + length B) div 8.
         extract_record (M @ B) (8 * k) = Inr (parse_loop (M @ B) 0 [] ! k))" by blast
  qed
  have "parse_lga_text raw_text = [] \<longleftrightarrow> length (parse_lga_text raw_text) = 0" by simp
  also have "\<dots> \<longleftrightarrow> length ?ls < 8" unfolding 3 by (simp add: div_eq_0_iff)
  finally have 7: "parse_lga_text raw_text = [] \<longleftrightarrow> length ?ls < 8" .
  from 1 2 3 4 5 6 7 show ?thesis by blast
qed

text \<open>
  For C2: a one-line block \<open>BAD\<close> between two blocks of eight lines. Extraction raises at
  cursor 16, where one line remains. The second record starts at \<open>BAD\<close> and ends with the
  first line of the following block, and the last line is left over. A text of three
  lines gives no record.
\<close>

theorem parse_lga_text_resync_witness:
  "extract_record [str ''x''] 0 = Inl IndexError \<and>
   parse_loop [str ''x''] 0 [] = parse_loop [str ''x''] (0 + 1) [] \<and>
   nonblank_lines (str ''a\<newline>b c\<newline>d\<newline>1\<newline>2\<newline>3\<newline>4\<newline>5\<newline>BAD\<newline>e\<newline>f g\<newline>h\<newline>6\<newline>7\<newline>8\<newline>9\<newline>0'') =
     [str ''a'', str ''b c'', str ''d'', str ''1'', str ''2'', str ''3'', str ''4'', str ''5''] @ [str ''BAD''] @
     [str ''e'', str ''f g'', str ''h'', str ''6'', str ''7'', str ''8'', str ''9'', str ''0''] \<and>
   extract_record (nonblank_lines (str ''a\<newline>b c\<newline>d\<newline>1\<newline>2\<newline>3\<newline>4\<newline>5\<newline>BAD\<newline>e\<newline>f g\<newline>h\<newline>6\<newline>7\<newline>8\<newline>9\<newline>0'')) 16 = Inl IndexError \<and>
   parse_loop (nonblank_lines (str ''a\<newline>b c\<newline>d\<newline>1\<newline>2\<newline>3\<newline>4\<newline>5\<newline>BAD\<newline>e\<newline>f g\<newline>h\<newline>6\<newline>7\<newline>8\<newline>9\<newline>0'')) 16 [] = [] \<and>
   length (parse_lga_text (str ''a\<newline>b c\<newline>d\<newline>1\<newline>2\<newline>3\<newline>4\<newline>5\<newline>BAD\<newline>e\<newline>f g\<newline>h\<newline>6\<newline>7\<newline>8\<newline>9\<newline>0'')) = 2 \<and>
   LGA (parse_lga_text (str ''a\<newline>b c\<newline>d\<newline>1\<newline>2\<newline>3\<newline>4\<newline>5\<newline>BAD\<newline>e\<newline>f g\<newline>h\<newline>6\<newline>7\<newline>8\<newline>9\<newline>0'') ! 1) = str ''BAD'' \<and>
   Density (parse_lga_text (str ''a\<newline>b c\<newline>d\<newline>1\<newline>2\<newline>3\<newline>4\<newline>5\<newline>BAD\<newline>e\<newline>f g\<newline>h\<newline>6\<newline>7\<newline>8\<newline>9\<newline>0'') ! 1) = str ''9'' \<and>
   length (parse_loop [str ''a'', str ''b c'', str ''d'', str ''1'', str ''2'', str ''3'', str ''4'', str ''5''] 0 []) = 1 \<and>
   length (nonblank_lines (str ''only\<newline>three\<newline>lines'')) < 8 \<and>
   parse_lga_text (str ''only\<newline>three\<newline>lines'') = []"
proof -
  let ?t = "str ''a\<newline>b c\<newline>d\<newline>1\<newline>2\<newline>3\<newline>4\<newline>5\<newline>BAD\<newline>e\<newline>f g\<newline>h\<newline>6\<newline>7\<newline>8\<newline>9\<newline>0''"
  let ?A = "[str ''a'', str ''b c'', str ''d'', str ''1'', str ''2'', str ''3'', str ''4'', str ''5'']"
  let ?M = "[str ''BAD'']"
  let ?B = "[str ''e'', str ''f g'', str ''h'', str ''6'', str ''7'', str ''8'', str ''9'', str ''0'']"
  let ?j = "str ''only\<newline>three\<newline>lines''"
  note T = parse_lga_text_resync[of 0 "[str ''x'']" IndexError "[]" ?t 16 IndexError ?A ?M ?B 1]
  note J = parse_lga_text_resync[of 0 "[str ''x'']" IndexError "[]" ?j 16 IndexError ?A ?M ?B 1]
  have x: "extract_record [str ''x''] 0 = Inl IndexError"
    by (simp add: extract_record_def index_def)
  have nl: "nonblank_lines ?t = ?A @ ?M @ ?B"
    by (simp add: str_def nonblank_lines_def splitlines_def is_linebreak_def strip_def isspace_def)
  have nj: "nonblank_lines ?j = [str ''only'', str ''three'', str ''lines'']"
    by (simp add: str_def nonblank_lines_def splitlines_def is_linebreak_def strip_def isspace_def)
  have len: "length (nonblank_lines ?t) = 17" by (simp add: nl)
  have f16: "extract_record (nonblank_lines ?t) 16 = Inl IndexError"
    by (simp add: extract_record_eq len)
  have 1: "parse_loop [str ''x''] 0 [] = parse_loop [str ''x''] (0 + 1) []"
    using T x by simp
  from T f16 have 2: "parse_loop (nonblank_lines ?t) 16 [] = []" by blast
  from T have 3: "length (parse_lga_text ?t) = length (nonblank_lines ?t) div 8" by blast
  from T have "\<forall>k<length (nonblank_lines ?t) div 8.
      extract_record (nonblank_lines ?t) (8 * k) = Inr (parse_lga_text ?t ! k) \<and>
      LGA (parse_lga_text ?t ! k) = nonblank_lines ?t ! (8 * k) \<and>
      Density (parse_lga_text ?t ! k) = nonblank_lines ?t ! (8 * k + 7)" by blast
  then have "1 < length (nonblank_lines ?t) div 8 \<longrightarrow>
      LGA (parse_lga_text ?t ! 1) = nonblank_lines ?t ! (8 * 1) \<and>
      Density (parse_lga_text ?t ! 1) = nonblank_lines ?t ! (8 * 1 + 7)" by blast
  then have 4: "LGA (parse_lga_text ?t ! 1) = str ''BAD''"
    and 5: "Density (parse_lga_text ?t ! 1) = str ''9''"
    by (simp_all add: len) (simp_all add: nl)
  have hyp: "nonblank_lines ?t = ?A @ ?M @ ?B \<and> length ?A = 8 * 1" using nl by simp
  from T hyp have 6: "length (parse_loop ?A 0 []) = 1" by blast
  have short: "length (nonblank_lines ?j) < 8" by (simp add: nj)
  from J short have 7: "parse_lga_text ?j = []" by blast
  from 3 have 8: "length (parse_lga_text ?t) = 2" by (simp add: len)
  show ?thesis using x 1 nl f16 2 8 4 5 6 short 7 by simp
qed

section \<open>The loops of the column normaliser\<close>

lemma filter_single:
  assumes "filter P xs = [c]" and "x \<in> set xs" and "P x"
  shows "x = c"
proof -
  from assms(2,3) have "x \<in> set (filter P xs)" by simp
  with assms(1) show ?thesis by simp
qed

lemma setitem_unique:
  assumes "filter (\<lambda>c. fst c = col) df = [c0]"
  shows "setitem df col (map f (snd c0)) =
         map (\<lambda>c. if fst c = col then (fst c, map f (snd c)) else c) df"
  unfolding setitem_def
proof (rule map_cong[OF refl])
  fix x assume x: "x \<in> set df"
  show "(if fst x = col then (col, map f (snd c0)) else x) =
        (if fst x = col then (fst x, map f (snd x)) else x)"
    using filter_single[OF assms x] by auto
qed

lemma filter_label_map:
  "filter (\<lambda>c. fst c = col) (map (\<lambda>c. if fst c = l then (fst c, g (snd c)) else c) df) =
   map (\<lambda>c. if fst c = l then (fst c, g (snd c)) else c) (filter (\<lambda>c. fst c = col) df)"
  by (induction df) auto

lemma mem_columns_iff: "col \<in> set (columns df) \<longleftrightarrow> filter (\<lambda>c. fst c = col) df \<noteq> []"
  by (induction df) (auto simp: columns_def)

lemma clean_string_col_eq:
  "clean_string_col ns col df =
     (if 2 \<le> length (filter (\<lambda>c. fst c = col) df) then Inl AttributeError
      else Inr (map (\<lambda>c. if fst c = col
                           then (fst c, map (\<lambda>v. Text (strip (astype_str ns v))) (snd c))
                           else c) df))"
proof (cases "filter (\<lambda>c. fst c = col) df")
  case Nil
  then have "\<forall>c\<in>set df. fst c \<noteq> col" by (simp add: filter_empty_conv)
  then have "map (\<lambda>c. if fst c = col
                           then (fst c, map (\<lambda>v. Text (strip (astype_str ns v))) (snd c))
                           else c) df = df"
    by (simp add: map_idI)
  then show ?thesis using Nil by (simp add: clean_string_col_def mem_columns_iff)
next
  case (Cons c0 rest)
  show ?thesis
  proof (cases rest)
    case Nil
    with Cons have u: "filter (\<lambda>c. fst c = col) df = [c0]" by simp
    show ?thesis
      by (simp add: clean_string_col_def mem_columns_iff series_def u setitem_unique[OF u])
  next
    case (Cons c1 rest')
    with \<open>filter (\<lambda>c. fst c = col) df = c0 # rest\<close> show ?thesis
      by (simp add: clean_string_col_def mem_columns_iff series_def)
  qed
qed

lemma fix_numeric_col_eq:
  "fix_numeric_col tn ns col df =
     (if 2 \<le> length (filter (\<lambda>c. fst c = col) df) then Inl AttributeError
      else Inr (map (\<lambda>c. if fst c = col
                           then (fst c, map (\<lambda>v. to_numeric tn (Text (replace (str '','') []
                                   (replace (str '' '') [] (strip (astype_str ns v)))))) (snd c))
                           else c) df))"
proof (cases "filter (\<lambda>c. fst c = col) df")
  case Nil
  then have "\<forall>c\<in>set df. fst c \<noteq> col" by (simp add: filter_empty_conv)
  then have "map (\<lambda>c. if fst c = col
                           then (fst c, map (\<lambda>v. to_numeric tn (Text (replace (str '','') []
                                   (replace (str '' '') [] (strip (astype_str ns v)))))) (snd c))
                           else c) df = df"
    by (simp add: map_idI)
  then show ?thesis using Nil by (simp add: fix_numeric_col_def mem_columns_iff)
next
  case (Cons c0 rest)
  show ?thesis
  proof (cases rest)
    case Nil
    with Cons have u: "filter (\<lambda>c. fst c = col) df = [c0]" by simp
    let ?g = "\<lambda>v. Text (replace (str '','') [] (replace (str '' '') [] (strip (astype_str ns v))))"
    let ?df1 = "map (\<lambda>c. if fst c = col then (fst c, map ?g (snd c)) else c) df"
    have s1: "setitem df col (map ?g (snd c0)) = ?df1" by (rule setitem_unique[OF u])
    have "c0 \<in> set (filter (\<lambda>c. fst c = col) df)" by (simp add: u)
    then have c0: "fst c0 = col" by simp
    have u1: "filter (\<lambda>c. fst c = col) ?df1 = [(fst c0, map ?g (snd c0))]"
      by (simp add: filter_label_map u c0)
    have s2: "setitem ?df1 col (map (to_numeric tn) (snd (fst c0, map ?g (snd c0)))) =
        map (\<lambda>c. if fst c = col then (fst c, map (to_numeric tn) (snd c)) else c) ?df1"
      by (rule setitem_unique[OF u1])
    have comp: "map (\<lambda>c. if fst c = col then (fst c, map (to_numeric tn) (snd c)) else c) ?df1 =
        map (\<lambda>c. if fst c = col then (fst c, map (\<lambda>v. to_numeric tn (?g v)) (snd c)) else c) df"
      by (simp add: comp_def if_distrib cong: if_cong)
    show ?thesis
      using s2 by (simp add: fix_numeric_col_def mem_columns_iff series_def u s1 u1 comp Let_def)
  next
    case (Cons c1 rest')
    with \<open>filter (\<lambda>c. fst c = col) df = c0 # rest\<close> show ?thesis
      by (simp add: fix_numeric_col_def mem_columns_iff series_def)
  qed
qed

lemma for_cols_closed:
  assumes body: "\<And>col df. body col df =
       (if 2 \<le> length (filter (\<lambda>c. fst c = col) df) then Inl AttributeError
        else Inr (map (\<lambda>c. if fst c = col then (fst c, map f (snd c)) else c) df))"
    and "distinct cols"
  shows "for_cols body cols df =
       (if \<exists>col\<in>set cols. 2 \<le> length (filter (\<lambda>c. fst c = col) df) then Inl AttributeError
        else Inr (map (\<lambda>c. if fst c \<in> set cols then (fst c, map f (snd c)) else c) df))"
  using assms(2)
proof (induction cols arbitrary: df)
  case Nil
  then show ?case by simp
next
  case (Cons col cols)
  let ?df' = "map (\<lambda>c. if fst c = col then (fst c, map f (snd c)) else c) df"
  have cnt: "length (filter (\<lambda>c. fst c = l) ?df') = length (filter (\<lambda>c. fst c = l) df)" for l
    by (simp add: filter_label_map)
  show ?case
  proof (cases "2 \<le> length (filter (\<lambda>c. fst c = col) df)")
    case True
    then have "for_cols body (col # cols) df = Inl AttributeError"
      by (simp add: body[of col df])
    with True show ?thesis by simp
  next
    case False
    have IH: "for_cols body cols ?df' =
       (if \<exists>l\<in>set cols. 2 \<le> length (filter (\<lambda>c. fst c = l) df) then Inl AttributeError
        else Inr (map (\<lambda>c. if fst c \<in> set cols then (fst c, map f (snd c)) else c) ?df'))"
      using Cons.IH[of ?df'] Cons.prems by (simp only: cnt distinct.simps)
    have comp: "map (\<lambda>c. if fst c \<in> set cols then (fst c, map f (snd c)) else c) ?df' =
        map (\<lambda>c. if fst c \<in> set (col # cols) then (fst c, map f (snd c)) else c) df"
      using Cons.prems by (auto simp: comp_def)
    have step: "for_cols body (col # cols) df = for_cols body cols ?df'"
      using False by (simp add: body[of col df])
    show ?thesis
      unfolding step IH comp using False by simp
  qed
qed

lemma distinct_string_cols: "distinct string_cols"
  by (simp add: string_cols_def str_def)

lemma distinct_numeric_cols: "distinct numeric_cols"
  by (simp add: numeric_cols_def str_def)

lemma string_numeric_disjoint: "col \<in> set string_cols \<Longrightarrow> col \<notin> set numeric_cols"
  by (auto simp: string_cols_def numeric_cols_def str_def)

lemma columns_clean_columns:
  "columns (clean_columns ext df) = map (clean_column_name ext) (columns df)"
  by (simp add: columns_def clean_columns_def comp_def)

lemma count_label:
  "length (filter (\<lambda>c. fst c = col) df) = length (filter (\<lambda>n. n = col) (columns df))"
  by (induction df) (auto simp: columns_def)

lemma clean_lga_data_closed:
  "clean_lga_data tn ns ext df =
     (if \<exists>col\<in>set (string_cols @ numeric_cols).
           2 \<le> length (filter (\<lambda>n. n = col) (map (clean_column_name ext) (columns df)))
      then Inl AttributeError
      else Inr (map (\<lambda>c.
             if fst c \<in> set string_cols
             then (fst c, map (\<lambda>v. Text (strip (astype_str ns v))) (snd c))
             else if fst c \<in> set numeric_cols
             then (fst c, map (\<lambda>v. to_numeric tn (Text (replace (str '','') []
                     (replace (str '' '') [] (strip (astype_str ns v)))))) (snd c))
             else c) (clean_columns ext df)))"
proof -
  let ?df0 = "clean_columns ext df"
  let ?fs = "\<lambda>v. Text (strip (astype_str ns v))"
  let ?fn = "\<lambda>v. to_numeric tn (Text (replace (str '','') []
                     (replace (str '' '') [] (strip (astype_str ns v)))))"
  let ?dfs = "map (\<lambda>c. if fst c \<in> set string_cols then (fst c, map ?fs (snd c)) else c) ?df0"
  have cnt0: "length (filter (\<lambda>c. fst c = col) ?df0) =
      length (filter (\<lambda>n. n = col) (map (clean_column_name ext) (columns df)))" for col
    by (simp add: count_label columns_clean_columns)
  have S: "for_cols (clean_string_col ns) string_cols ?df0 =
       (if \<exists>col\<in>set string_cols. 2 \<le> length (filter (\<lambda>c. fst c = col) ?df0) then Inl AttributeError
        else Inr ?dfs)"
    by (rule for_cols_closed[OF clean_string_col_eq distinct_string_cols])
  have cols_s: "columns ?dfs = columns ?df0"
    by (simp add: columns_def comp_def if_distrib cong: if_cong)
  have cnts: "length (filter (\<lambda>c. fst c = col) ?dfs) = length (filter (\<lambda>c. fst c = col) ?df0)" for col
    by (simp only: count_label cols_s)
  have N: "for_cols (fix_numeric_col tn ns) numeric_cols ?dfs =
       (if \<exists>col\<in>set numeric_cols. 2 \<le> length (filter (\<lambda>c. fst c = col) ?df0) then Inl AttributeError
        else Inr (map (\<lambda>c. if fst c \<in> set numeric_cols then (fst c, map ?fn (snd c)) else c) ?dfs))"
    unfolding cnts[symmetric]
    by (rule for_cols_closed[OF fix_numeric_col_eq distinct_numeric_cols])
  have comp: "map (\<lambda>c. if fst c \<in> set numeric_cols then (fst c, map ?fn (snd c)) else c) ?dfs =
      map (\<lambda>c. if fst c \<in> set string_cols then (fst c, map ?fs (snd c))
                else if fst c \<in> set numeric_cols then (fst c, map ?fn (snd c)) else c) ?df0"
    by (auto simp: comp_def dest: string_numeric_disjoint)
  let ?dup = "\<lambda>col. 2 \<le> length (filter (\<lambda>n. n = col) (map (clean_column_name ext) (columns df)))"
  have E: "(\<exists>col\<in>set (string_cols @ numeric_cols). ?dup col) \<longleftrightarrow>
      (\<exists>col\<in>set string_cols. ?dup col) \<or> (\<exists>col\<in>set numeric_cols. ?dup col)"
    by auto
  show ?thesis
  proof (cases "\<exists>col\<in>set string_cols. ?dup col")
    case True
    then show ?thesis
      unfolding clean_lga_data_def S cnt0 E by simp
  next
    case False
    then have "clean_lga_data tn ns ext df = for_cols (fix_numeric_col tn ns) numeric_cols ?dfs"
      unfolding clean_lga_data_def S cnt0 by simp
    then show ?thesis
      unfolding N cnt0 comp E using False by simp
  qed
qed

section \<open>Facts about \<open>replace\<close> and the label pipeline\<close>

lemma replace_Nil [simp]: "old \<noteq> [] \<Longrightarrow> replace old new [] = []"
  by (subst replace.simps) simp

lemma replace_single_Cons:
  "replace [a] new (c # cs) = (if c = a then new @ replace [a] new cs else c # replace [a] new cs)"
  by (subst replace.simps) simp

lemma replace_single_delete: "replace [a] [] s = filter (\<lambda>c. c \<noteq> a) s"
  by (induction s) (simp_all add: replace_single_Cons)

lemma replace_single_char: "replace [a] [b] s = map (\<lambda>c. if c = a then b else c) s"
  by (induction s) (simp_all add: replace_single_Cons)


lemma replace_absent:
  assumes "old \<noteq> []" and "hd old \<notin> set s"
  shows "replace old new s = s"
  using assms
proof (induction s)
  case Nil
  then show ?case by simp
next
  case (Cons c cs)
  from Cons.prems obtain a as where old: "old = a # as" by (cases old) auto
  with Cons.prems have ne: "a \<noteq> c" "a \<notin> set cs" by auto
  then have "take (length old) (c # cs) \<noteq> old" by (simp add: old)
  then have "replace old new (c # cs) = c # replace old new cs"
    using Cons.prems(1) by (subst replace.simps) simp
  then show ?case using Cons.IH Cons.prems(1) ne old by simp
qed


section \<open>Claims about the column normaliser\<close>

lemmas label_eval = clean_column_name_def str_def strip_def isspace_def replace_single_delete
  replace_single_char remove_parens_def lower_def ascii_lower_def replace_absent

lemmas value_eval = str_def strip_def isspace_def replace_single_delete astype_str_def
  to_numeric_def parse_decimal_def parse_unsigned_def is_digit_def digits_value_def

lemma clean_lga_data_columns:
  assumes "clean_lga_data tn ns ext df = Inr df'"
  shows "columns df' = columns (clean_columns ext df)"
proof -
  from assms have "df' = map (\<lambda>c.
             if fst c \<in> set string_cols
             then (fst c, map (\<lambda>v. Text (strip (astype_str ns v))) (snd c))
             else if fst c \<in> set numeric_cols
             then (fst c, map (\<lambda>v. to_numeric tn (Text (replace (str '','') []
                     (replace (str '' '') [] (strip (astype_str ns v)))))) (snd c))
             else c) (clean_columns ext df)"
    by (simp add: clean_lga_data_closed split: if_splits)
  moreover have "fst (if fst c \<in> set string_cols then (fst c, x)
                      else if fst c \<in> set numeric_cols then (fst c, y) else c) = fst c"
    for c :: "pystr \<times> cell list" and x y
    by simp
  ultimately show ?thesis
    by (simp add: columns_def comp_def)
qed



lemma clean_lga_data_length:
  assumes "clean_lga_data tn ns ext df = Inr df'"
  shows "length df' = length df"
  using clean_lga_data_columns[OF assms]
    arg_cong[OF columns_clean_columns[of ext df], of length]
  by (simp add: columns_def) (metis length_map)

lemma clean_lga_data_nth:
  assumes r: "clean_lga_data tn ns ext df = Inr df'" and j: "j < length df"
  shows "fst (df' ! j) = clean_column_name ext (fst (df ! j))"
    and "clean_column_name ext (fst (df ! j)) \<in> set string_cols \<Longrightarrow>
         snd (df' ! j) = map (\<lambda>v. Text (strip (astype_str ns v))) (snd (df ! j))"
    and "clean_column_name ext (fst (df ! j)) \<in> set numeric_cols \<Longrightarrow>
         snd (df' ! j) = map (\<lambda>v. to_numeric tn (Text (replace (str '','') []
                     (replace (str '' '') [] (strip (astype_str ns v)))))) (snd (df ! j))"
    and "clean_column_name ext (fst (df ! j)) \<notin> set string_cols \<Longrightarrow>
         clean_column_name ext (fst (df ! j)) \<notin> set numeric_cols \<Longrightarrow>
         snd (df' ! j) = snd (df ! j)"
proof -
  from r have eq: "df' = map (\<lambda>c.
             if fst c \<in> set string_cols
             then (fst c, map (\<lambda>v. Text (strip (astype_str ns v))) (snd c))
             else if fst c \<in> set numeric_cols
             then (fst c, map (\<lambda>v. to_numeric tn (Text (replace (str '','') []
                     (replace (str '' '') [] (strip (astype_str ns v)))))) (snd c))
             else c) (clean_columns ext df)"
    by (simp add: clean_lga_data_closed split: if_splits)
  have c: "clean_columns ext df ! j = (clean_column_name ext (fst (df ! j)), snd (df ! j))"
    using j by (simp add: clean_columns_def)
  have jj: "j < length (clean_columns ext df)" using j by (simp add: clean_columns_def)
  show "fst (df' ! j) = clean_column_name ext (fst (df ! j))"
    unfolding eq nth_map[OF jj] c by simp
  show "clean_column_name ext (fst (df ! j)) \<in> set string_cols \<Longrightarrow>
         snd (df' ! j) = map (\<lambda>v. Text (strip (astype_str ns v))) (snd (df ! j))"
    unfolding eq nth_map[OF jj] c by simp
  show "clean_column_name ext (fst (df ! j)) \<in> set numeric_cols \<Longrightarrow>
         snd (df' ! j) = map (\<lambda>v. to_numeric tn (Text (replace (str '','') []
                     (replace (str '' '') [] (strip (astype_str ns v)))))) (snd (df ! j))"
    unfolding eq nth_map[OF jj] c using string_numeric_disjoint by auto
  show "clean_column_name ext (fst (df ! j)) \<notin> set string_cols \<Longrightarrow>
         clean_column_name ext (fst (df ! j)) \<notin> set numeric_cols \<Longrightarrow>
         snd (df' ! j) = snd (df ! j)"
    unfolding eq nth_map[OF jj] c by simp
qed

lemma clean_lga_data_returns_iff:
  "(\<exists>df'. clean_lga_data tn ns ext df = Inr df') \<longleftrightarrow>
   (\<forall>col\<in>set (string_cols @ numeric_cols).
      length (filter (\<lambda>n. n = col) (map (clean_column_name ext) (columns df))) \<le> 1)"
proof -
  have "(\<forall>col\<in>set (string_cols @ numeric_cols).
      length (filter (\<lambda>n. n = col) (map (clean_column_name ext) (columns df))) \<le> 1) \<longleftrightarrow>
    \<not> (\<exists>col\<in>set (string_cols @ numeric_cols).
      2 \<le> length (filter (\<lambda>n. n = col) (map (clean_column_name ext) (columns df))))"
    by (auto simp: not_le less_Suc_eq_le numeral_2_eq_2)
  then show ?thesis
    unfolding clean_lga_data_closed by simp
qed

text \<open>
  Against claim C4 as stated: the labels \<open>Population\<close> and \<open>population\<close> both become
  \<open>population\<close>, \<open>df["population"]\<close> is then a data frame without \<open>.str\<close>, and the
  function raises AttributeError although the table has a designated numeric column.
\<close>

theorem numeric_coercion_repeated_label:
  "clean_lga_data parse_decimal (\<lambda>x. []) (\<lambda>s. s)
     [(str ''Population'', [Text (str ''155 600'')]), (str ''population'', [Text (str ''7'')])] =
   Inl AttributeError"
proof -
  have n: "clean_column_name (\<lambda>s. s) (str ''Population'') = str ''population''"
      "clean_column_name (\<lambda>s. s) (str ''population'') = str ''population''"
    by (simp_all add: label_eval)
  have m: "str ''population'' \<in> set (string_cols @ numeric_cols)"
    by (simp add: numeric_cols_def str_def)
  have "2 \<le> length (filter (\<lambda>n. n = str ''population'') (map (clean_column_name (\<lambda>s. s))
      (columns [(str ''Population'', [Text (str ''155 600'')]), (str ''population'', [Text (str ''7'')])])))"
    by (simp add: columns_def n)
  with m show ?thesis
    unfolding clean_lga_data_closed by (simp only: if_P bexI[of _ "str ''population''"])
qed

text \<open>
  Claim C4, amended. When no designated column name occurs twice among the cleaned
  labels, \<open>clean_lga_data\<close> returns a table, whatever the values are; in it every column
  whose cleaned label is a designated numeric name holds, for each old value, the result
  of: the value as text, stripped, spaces deleted, commas deleted, read as a number, and
  NaN where the reader gives none. With the reader of plain decimals, \<open>"155 600"\<close>
  becomes 155600, \<open>"12,345.6"\<close> becomes 12345.6 and \<open>"abc"\<close> becomes NaN.
\<close>

theorem numeric_columns_coerced:
  assumes nodup: "\<forall>col\<in>set (string_cols @ numeric_cols).
      length (filter (\<lambda>n. n = col) (map (clean_column_name ext) (columns df))) \<le> 1"
  shows "(\<exists>df'. clean_lga_data tn ns ext df = Inr df' \<and> length df' = length df \<and>
      (\<forall>j<length df. clean_column_name ext (fst (df ! j)) \<in> set numeric_cols \<longrightarrow>
         df' ! j = (clean_column_name ext (fst (df ! j)),
                    map (\<lambda>v. case tn (replace (str '','') [] (replace (str '' '') []
                                    (strip (astype_str ns v)))) of
                                None \<Rightarrow> NaN | Some x \<Rightarrow> Number x)
                        (snd (df ! j))))) \<and>
     clean_lga_data parse_decimal ns ext
       [(str ''Population'', [Text (str ''155 600''), Text (str ''12,345.6''), Text (str ''abc'')])] =
     Inr [(str ''population'', [Number (Fin 155600), Number (Fin (123456 / 10)), NaN])]"
proof
  from nodup obtain df' where r: "clean_lga_data tn ns ext df = Inr df'"
    using clean_lga_data_returns_iff[of tn ns ext df] by blast
  have "df' ! j = (clean_column_name ext (fst (df ! j)),
                    map (\<lambda>v. case tn (replace (str '','') [] (replace (str '' '') []
                                    (strip (astype_str ns v)))) of
                                None \<Rightarrow> NaN | Some x \<Rightarrow> Number x)
                        (snd (df ! j)))"
    if j: "j < length df" and num: "clean_column_name ext (fst (df ! j)) \<in> set numeric_cols" for j
  proof -
    have "fst (df' ! j) = clean_column_name ext (fst (df ! j))"
      by (rule clean_lga_data_nth(1)[OF r j])
    moreover have "snd (df' ! j) = map (\<lambda>v. to_numeric tn (Text (replace (str '','') []
                     (replace (str '' '') [] (strip (astype_str ns v)))))) (snd (df ! j))"
      by (rule clean_lga_data_nth(3)[OF r j num])
    ultimately show ?thesis
      by (simp add: prod_eq_iff to_numeric_def)
  qed
  moreover have "length df' = length df" by (rule clean_lga_data_length[OF r])
  ultimately show "\<exists>df'. clean_lga_data tn ns ext df = Inr df' \<and> length df' = length df \<and>
      (\<forall>j<length df. clean_column_name ext (fst (df ! j)) \<in> set numeric_cols \<longrightarrow>
         df' ! j = (clean_column_name ext (fst (df ! j)),
                    map (\<lambda>v. case tn (replace (str '','') [] (replace (str '' '') []
                                    (strip (astype_str ns v)))) of
                                None \<Rightarrow> NaN | Some x \<Rightarrow> Number x)
                        (snd (df ! j))))"
    using r by blast
next
  have n: "clean_column_name ext (str ''Population'') = str ''population''"
    by (simp add: label_eval)
  have m: "str ''population'' \<in> set numeric_cols" "str ''population'' \<notin> set string_cols"
    by (simp_all add: numeric_cols_def string_cols_def str_def)
  have v1: "to_numeric parse_decimal (Text (replace (str '','') [] (replace (str '' '') [] (strip (str ''155 600''))))) = Number (Fin 155600)"
    by (simp add: value_eval)
  have v2: "to_numeric parse_decimal (Text (replace (str '','') [] (replace (str '' '') [] (strip (str ''12,345.6''))))) = Number (Fin (123456 / 10))"
    by (simp add: value_eval)
  have v3: "to_numeric parse_decimal (Text (replace (str '','') [] (replace (str '' '') [] (strip (str ''abc''))))) = NaN"
    by (simp add: value_eval)
  show "clean_lga_data parse_decimal ns ext
       [(str ''Population'', [Text (str ''155 600''), Text (str ''12,345.6''), Text (str ''abc'')])] =
     Inr [(str ''population'', [Number (Fin 155600), Number (Fin (123456 / 10)), NaN])]"
    by (simp add: clean_lga_data_closed columns_def clean_columns_def n m astype_str_def v1 v2 v3)
qed

text \<open>For C4: a text column and a numeric column with a grouped number and a non-number.\<close>

theorem numeric_columns_coerced_witness:
  "list_all (\<lambda>col. length (filter (\<lambda>n. n = col) (map (clean_column_name (\<lambda>s. s))
       (columns [(str ''LGA'', [Text (str '' Aba '')]),
                 (str ''Population'', [Text (str ''155 600''), Text (str ''n/a'')])]))) \<le> 1)
     (string_cols @ numeric_cols) \<and>
   (\<exists>df'. clean_lga_data parse_decimal (\<lambda>x. []) (\<lambda>s. s)
       [(str ''LGA'', [Text (str '' Aba '')]),
        (str ''Population'', [Text (str ''155 600''), Text (str ''n/a'')])] = Inr df' \<and>
      length df' = 2 \<and>
      df' ! 1 = (str ''population'', [Number (Fin 155600), NaN]))"
proof -
  let ?df = "[(str ''LGA'', [Text (str '' Aba '')]),
              (str ''Population'', [Text (str ''155 600''), Text (str ''n/a'')])]"
  have n: "clean_column_name (\<lambda>s. s) (str ''LGA'') = str ''lga''"
      "clean_column_name (\<lambda>s. s) (str ''Population'') = str ''population''"
    by (simp_all add: label_eval)
  have h: "\<forall>col\<in>set (string_cols @ numeric_cols).
      length (filter (\<lambda>n. n = col) (map (clean_column_name (\<lambda>s. s)) (columns ?df))) \<le> 1"
    by (simp add: columns_def n) (simp add: string_cols_def numeric_cols_def str_def)
  have m: "clean_column_name (\<lambda>s. s) (fst (?df ! 1)) \<in> set numeric_cols"
    by (simp add: n) (simp add: numeric_cols_def str_def)
  have v: "map (\<lambda>v. case parse_decimal (replace (str '','') [] (replace (str '' '') []
                                    (strip (astype_str (\<lambda>x. []) v)))) of
                                None \<Rightarrow> NaN | Some x \<Rightarrow> Number x)
                        (snd (?df ! 1)) = [Number (Fin 155600), NaN]"
    by (simp add: value_eval)
  from numeric_columns_coerced[OF h, of parse_decimal "\<lambda>x. []"]
  obtain df' where r: "clean_lga_data parse_decimal (\<lambda>x. []) (\<lambda>s. s) ?df = Inr df'"
    and l: "length df' = length ?df"
    and a: "\<forall>j<length ?df. clean_column_name (\<lambda>s. s) (fst (?df ! j)) \<in> set numeric_cols \<longrightarrow>
         df' ! j = (clean_column_name (\<lambda>s. s) (fst (?df ! j)),
                    map (\<lambda>v. case parse_decimal (replace (str '','') [] (replace (str '' '') []
                                    (strip (astype_str (\<lambda>x. []) v)))) of
                                None \<Rightarrow> NaN | Some x \<Rightarrow> Number x)
                        (snd (?df ! j)))"
    by blast
  from a m have "df' ! 1 = (clean_column_name (\<lambda>s. s) (fst (?df ! 1)),
                    map (\<lambda>v. case parse_decimal (replace (str '','') [] (replace (str '' '') []
                                    (strip (astype_str (\<lambda>x. []) v)))) of
                                None \<Rightarrow> NaN | Some x \<Rightarrow> Number x)
                        (snd (?df ! 1)))"
    by simp
  then have "df' ! 1 = (str ''population'', [Number (Fin 155600), NaN])"
    unfolding v by (simp add: n)
  moreover have "list_all (\<lambda>col. length (filter (\<lambda>n. n = col) (map (clean_column_name (\<lambda>s. s))
       (columns ?df))) \<le> 1) (string_cols @ numeric_cols)"
    using h by (simp only: list_all_iff)
  ultimately show ?thesis using r l by auto
qed

text \<open>
  Against claim C5 as stated: the label \<open>"(population\t)"\<close> (with a tab before the closing
  parenthesis) starts and ends with a parenthesis, so \<open>strip\<close> finds nothing to remove;
  deleting the parentheses leaves \<open>"population\t"\<close>, which is no designated name. The
  second run strips the tab, the label becomes \<open>population\<close>, and the column is made
  numeric: both the label and the values differ from the result of the first run.
\<close>

theorem clean_lga_data_not_idempotent:
  "clean_lga_data parse_decimal (\<lambda>x. []) (\<lambda>s. s)
     [(40 # str ''population'' @ [9, 41], [Text (str ''155 600'')])] =
       Inr [(str ''population'' @ [9], [Text (str ''155 600'')])] \<and>
   clean_lga_data parse_decimal (\<lambda>x. []) (\<lambda>s. s)
     [(str ''population'' @ [9], [Text (str ''155 600'')])] =
       Inr [(str ''population'', [Number (Fin 155600)])]"
proof -
  have n1: "clean_column_name (\<lambda>s. s) (40 # str ''population'' @ [9, 41]) = str ''population'' @ [9]"
    and n2: "clean_column_name (\<lambda>s. s) (str ''population'' @ [9]) = str ''population''"
    by (simp_all add: label_eval)
  have m1: "str ''population'' @ [9] \<notin> set string_cols" "str ''population'' @ [9] \<notin> set numeric_cols"
    and m2: "str ''population'' \<notin> set string_cols" "str ''population'' \<in> set numeric_cols"
    by (simp_all add: numeric_cols_def string_cols_def str_def)
  have v: "to_numeric parse_decimal (Text (replace (str '','') [] (replace (str '' '') [] (strip (str ''155 600''))))) = Number (Fin 155600)"
    by (simp add: value_eval)
  have c1: "columns [(40 # str ''population'' @ [9, 41], [Text (str ''155 600'')])] = [40 # str ''population'' @ [9, 41]]"
    and c2: "columns [(str ''population'' @ [9], [Text (str ''155 600'')])] = [str ''population'' @ [9]]"
    by (simp_all add: columns_def)
  have 1: "clean_lga_data parse_decimal (\<lambda>x. []) (\<lambda>s. s)
     [(40 # str ''population'' @ [9, 41], [Text (str ''155 600'')])] =
       Inr [(str ''population'' @ [9], [Text (str ''155 600'')])]"
    unfolding clean_lga_data_closed c1 by (simp add: clean_columns_def n1 m1)
  have 2: "clean_lga_data parse_decimal (\<lambda>x. []) (\<lambda>s. s)
     [(str ''population'' @ [9], [Text (str ''155 600'')])] =
       Inr [(str ''population'', [Number (Fin 155600)])]"
    unfolding clean_lga_data_closed c2 by (simp add: clean_columns_def n2 m2 astype_str_def v)
  from 1 2 show ?thesis by (rule conjI)
qed

lemma strip_astype_str_idem:
  "Text (strip (astype_str ns (Text (strip s)))) = Text (strip s)"
  by (simp add: astype_str_def strip_strip)

lemma nan_text_unchanged:
  "replace (str '','') [] (replace (str '' '') [] (strip (str ''nan''))) = str ''nan''"
  by (simp add: str_def strip_def isspace_def replace_single_delete)

text \<open>
  Labels that the name pipeline leaves unchanged: those made of ASCII code points other
  than whitespace, parentheses and capital letters. All designated names are of this kind.
\<close>

lemma clean_column_name_fixed:
  assumes "\<forall>c\<in>set name. c < 128 \<and> \<not> isspace c \<and> c \<noteq> 40 \<and> c \<noteq> 41 \<and> \<not> (65 \<le> c \<and> c \<le> 90)"
  shows "clean_column_name ext name = name"
proof -
  have s: "strip name = name"
  proof (cases "name = []")
    case True
    then show ?thesis by (simp add: strip_def)
  next
    case False
    then have "hd name \<in> set name" "last name \<in> set name" by simp_all
    with assms have "\<not> isspace (hd name)" "\<not> isspace (last name)" by blast+
    with False show ?thesis by (rule strip_fixed)
  qed
  have lt: "c < 128" if "c \<in> set name" for c using assms that by blast
  have b1: "replace [65279] [] name = name"
  proof (rule replace_absent)
    show "hd [65279] \<notin> set name" using lt[of 65279] by auto
  qed simp
  have b2: "replace [239, 187, 191] [] name = name"
  proof (rule replace_absent)
    show "hd [239, 187, 191] \<notin> set name" using lt[of 239] by auto
  qed simp
  have "c \<noteq> 40 \<and> c \<noteq> 41" if "c \<in> set name" for c using assms that by blast
  then have p: "remove_parens name = name"
    unfolding remove_parens_def by (intro filter_True) blast
  have "32 \<notin> set name"
  proof
    assume "32 \<in> set name"
    with assms have "\<not> isspace 32" by blast
    then show False by (simp add: isspace_def)
  qed
  then have u: "replace (str '' '') (str ''_'') name = name"
    by (intro replace_absent) (simp_all add: str_def)
  have "ascii_lower c = c" if "c \<in> set name" for c
  proof -
    from assms that have "\<not> (65 \<le> c \<and> c \<le> 90)" by blast
    then show ?thesis unfolding ascii_lower_def by simp
  qed
  then have m: "map ascii_lower name = name" by (intro map_idI)
  have "list_all (\<lambda>c. c < 128) name" using lt by (simp add: list_all_iff)
  then have l: "lower ext name = name" by (simp add: lower_def m)
  show ?thesis
    by (simp add: clean_column_name_def s b1 b2 p u l)
qed

text \<open>
  Claim C5, amended. Let \<open>clean_lga_data\<close> return \<open>df1\<close>. If the name pipeline leaves every
  label of \<open>df1\<close> unchanged, then cleaning \<open>df1\<close> again returns \<open>df1\<close>: the same labels and
  the same values. Two facts about the number reader and printer, which the program takes
  from its libraries, are used: the printed form of every number in a designated numeric
  column of \<open>df1\<close> reads back as that number, and the text \<open>nan\<close> reads as missing.
\<close>

theorem clean_lga_data_idempotent:
  assumes r: "clean_lga_data tn ns ext df = Inr df1"
    and names: "\<forall>name\<in>set (columns df1). clean_column_name ext name = name"
    and nums: "\<forall>c\<in>set df1. fst c \<in> set numeric_cols \<longrightarrow>
        (\<forall>x. Number x \<in> set (snd c) \<longrightarrow>
           tn (replace (str '','') [] (replace (str '' '') [] (strip (ns x)))) = Some x)"
    and nan: "tn (str ''nan'') = None"
  shows "clean_lga_data tn ns ext df1 = Inr df1"
proof -
  let ?fs = "\<lambda>v. Text (strip (astype_str ns v))"
  let ?fn = "\<lambda>v. to_numeric tn (Text (replace (str '','') []
                     (replace (str '' '') [] (strip (astype_str ns v)))))"
  have cols1: "columns df1 = map (clean_column_name ext) (columns df)"
    using clean_lga_data_columns[OF r] by (simp add: columns_clean_columns)
  have fixed_labels: "map (clean_column_name ext) (columns df1) = columns df1"
    using names by (simp add: map_idI)
  have same: "map (clean_column_name ext) (columns df1) = map (clean_column_name ext) (columns df)"
    using fixed_labels cols1 by simp
  have "\<exists>df'. clean_lga_data tn ns ext df = Inr df'" using r by blast
  then have "\<forall>col\<in>set (string_cols @ numeric_cols).
      length (filter (\<lambda>n. n = col) (map (clean_column_name ext) (columns df))) \<le> 1"
    unfolding clean_lga_data_returns_iff .
  then have "\<forall>col\<in>set (string_cols @ numeric_cols).
      length (filter (\<lambda>n. n = col) (map (clean_column_name ext) (columns df1))) \<le> 1"
    unfolding same .
  then obtain df2 where r2: "clean_lga_data tn ns ext df1 = Inr df2"
    using clean_lga_data_returns_iff[of tn ns ext df1] by blast
  have len1: "length df1 = length df" by (rule clean_lga_data_length[OF r])
  have len2: "length df2 = length df1" by (rule clean_lga_data_length[OF r2])
  have "df2 ! j = df1 ! j" if j1: "j < length df1" for j
  proof -
    from j1 have j: "j < length df" by (simp add: len1)
    let ?n = "fst (df1 ! j)"
    have n0: "clean_column_name ext (fst (df ! j)) = ?n"
      by (rule clean_lga_data_nth(1)[OF r j, symmetric])
    have "?n \<in> set (columns df1)" using j1 by (simp add: columns_def)
    then have n1: "clean_column_name ext ?n = ?n" using names by blast
    have lab: "fst (df2 ! j) = ?n"
      using clean_lga_data_nth(1)[OF r2 j1] n1 by simp
    have val: "snd (df2 ! j) = snd (df1 ! j)"
    proof (cases "?n \<in> set string_cols")
      case True
      have a: "snd (df1 ! j) = map ?fs (snd (df ! j))"
        using clean_lga_data_nth(2)[OF r j] True n0 by simp
      have b: "snd (df2 ! j) = map ?fs (snd (df1 ! j))"
        using clean_lga_data_nth(2)[OF r2 j1] True n1 by simp
      show ?thesis unfolding b a by (simp add: strip_astype_str_idem)
    next
      case ns: False
      show ?thesis
      proof (cases "?n \<in> set numeric_cols")
        case True
        have a: "snd (df1 ! j) = map ?fn (snd (df ! j))"
          using clean_lga_data_nth(3)[OF r j] True n0 by simp
        have b: "snd (df2 ! j) = map ?fn (snd (df1 ! j))"
          using clean_lga_data_nth(3)[OF r2 j1] True n1 by simp
        have mem: "df1 ! j \<in> set df1" using j1 by simp
        have "?fn w = w" if w: "w \<in> set (snd (df1 ! j))" for w
        proof (cases w)
          case (Text s)
          with w a have "Text s \<in> set (map ?fn (snd (df ! j)))" by simp
          then show ?thesis by (auto simp: to_numeric_def split: option.splits)
        next
          case (Number x)
          with w mem True nums
          have "tn (replace (str '','') [] (replace (str '' '') [] (strip (ns x)))) = Some x"
            by blast
          then show ?thesis by (simp add: Number to_numeric_def astype_str_def)
        next
          case NaN
          then show ?thesis
            by (simp add: to_numeric_def astype_str_def nan_text_unchanged nan)
        qed
        then show ?thesis unfolding b by (simp add: map_idI)
      next
        case False
        have a: "snd (df2 ! j) = snd (df1 ! j)"
          using clean_lga_data_nth(4)[OF r2 j1] ns False n1 by simp
        then show ?thesis .
      qed
    qed
    from lab val show ?thesis by (simp add: prod_eq_iff)
  qed
  with len2 have "df2 = df1" by (simp add: list_eq_iff_nth_eq)
  with r2 show ?thesis by simp
qed

text \<open>
  For C5: the first run turns \<open>"155 600"\<close> into the number 155600 and \<open>"abc"\<close> into NaN;
  the number is printed as an integer column prints it.
\<close>

theorem clean_lga_data_idempotent_witness:
  "clean_lga_data parse_decimal (\<lambda>x. case x of Fin q \<Rightarrow> show_int \<lfloor>q\<rfloor> | _ \<Rightarrow> []) (\<lambda>s. s)
     [(str '' LGA '', [Text (str '' Aba North '')]),
      (str ''Population'', [Text (str ''155 600''), Text (str ''abc'')])] =
     Inr [(str ''lga'', [Text (str ''Aba North'')]),
          (str ''population'', [Number (Fin 155600), NaN])] \<and>
   list_all (\<lambda>name. clean_column_name (\<lambda>s. s) name = name)
     (columns [(str ''lga'', [Text (str ''Aba North'')]),
               (str ''population'', [Number (Fin 155600), NaN])]) \<and>
   parse_decimal (replace (str '','') [] (replace (str '' '') [] (strip (show_int \<lfloor>155600 :: rat\<rfloor>)))) =
     Some (Fin 155600) \<and>
   parse_decimal (str ''nan'') = None \<and>
   clean_lga_data parse_decimal (\<lambda>x. case x of Fin q \<Rightarrow> show_int \<lfloor>q\<rfloor> | _ \<Rightarrow> []) (\<lambda>s. s)
     [(str ''lga'', [Text (str ''Aba North'')]),
      (str ''population'', [Number (Fin 155600), NaN])] =
     Inr [(str ''lga'', [Text (str ''Aba North'')]),
          (str ''population'', [Number (Fin 155600), NaN])]"
proof -
  let ?ns = "\<lambda>x. case x of Fin q \<Rightarrow> show_int \<lfloor>q\<rfloor> | _ \<Rightarrow> []"
  let ?df = "[(str '' LGA '', [Text (str '' Aba North '')]),
      (str ''Population'', [Text (str ''155 600''), Text (str ''abc'')])]"
  let ?df1 = "[(str ''lga'', [Text (str ''Aba North'')]),
          (str ''population'', [Number (Fin 155600), NaN])]"
  have n: "clean_column_name (\<lambda>s. s) (str '' LGA '') = str ''lga''"
      "clean_column_name (\<lambda>s. s) (str ''Population'') = str ''population''"
      "clean_column_name (\<lambda>s. s) (str ''lga'') = str ''lga''"
      "clean_column_name (\<lambda>s. s) (str ''population'') = str ''population''"
    by (simp_all add: label_eval)
  have m: "str ''lga'' \<in> set string_cols" "str ''population'' \<notin> set string_cols"
      "str ''population'' \<in> set numeric_cols"
    by (simp_all add: numeric_cols_def string_cols_def str_def)
  have d: "\<not> (\<exists>col\<in>set (string_cols @ numeric_cols).
           2 \<le> length (filter (\<lambda>n. n = col) (map (clean_column_name (\<lambda>s. s)) (columns ?df))))"
    by (simp add: columns_def n) (simp add: string_cols_def numeric_cols_def str_def)
  have v: "strip (str '' Aba North '') = str ''Aba North''"
      "to_numeric parse_decimal (Text (replace (str '','') [] (replace (str '' '') [] (strip (str ''155 600''))))) = Number (Fin 155600)"
      "to_numeric parse_decimal (Text (replace (str '','') [] (replace (str '' '') [] (strip (str ''abc''))))) = NaN"
    by (simp_all add: value_eval)
  have r: "clean_lga_data parse_decimal ?ns (\<lambda>s. s) ?df = Inr ?df1"
    unfolding clean_lga_data_closed using d
    by (simp add: clean_columns_def n m astype_str_def v)
  have names: "\<forall>name\<in>set (columns ?df1). clean_column_name (\<lambda>s. s) name = name"
    by (simp add: columns_def n)
  have printed: "show_int \<lfloor>155600 :: rat\<rfloor> = str ''155600''"
    by (simp add: show_int_def show_nat.simps str_def)
  have reads_back: "parse_decimal (replace (str '','') [] (replace (str '' '') [] (strip (show_int \<lfloor>155600 :: rat\<rfloor>)))) =
     Some (Fin 155600)"
    unfolding printed by (simp add: value_eval)
  have nums: "\<forall>c\<in>set ?df1. fst c \<in> set numeric_cols \<longrightarrow>
        (\<forall>x. Number x \<in> set (snd c) \<longrightarrow>
           parse_decimal (replace (str '','') [] (replace (str '' '') [] (strip (?ns x)))) = Some x)"
    using reads_back by (simp add: m)
  have nan: "parse_decimal (str ''nan'') = None"
    by (simp add: value_eval)
  have "clean_lga_data parse_decimal ?ns (\<lambda>s. s) ?df1 = Inr ?df1"
    by (rule clean_lga_data_idempotent[OF r names nums nan])
  moreover have "list_all (\<lambda>name. clean_column_name (\<lambda>s. s) name = name) (columns ?df1)"
    using names by (simp only: list_all_iff)
  ultimately show ?thesis using r reads_back nan by blast
qed

section \<open>Claims about the user store\<close>

lemma filter_commit_last_login:
  "filter (\<lambda>r. username r = name) (commit_last_login db u now) =
   map (\<lambda>r. if uid r = uid u then r\<lparr>last_login := Some now\<rparr> else r)
     (filter (\<lambda>r. username r = name) db)"
  unfolding commit_last_login_def by (induction db) auto

lemma query_first_commit:
  assumes "query_first db name = Some u"
  shows "query_first (commit_last_login db u now) name = Some (u\<lparr>last_login := Some now\<rparr>)"
proof -
  from assms obtain rest where "filter (\<lambda>r. username r = name) db = u # rest"
    by (auto simp: query_first_def split: list.splits)
  then show ?thesis
    by (simp add: query_first_def filter_commit_last_login)
qed

text \<open>
  Claim C6. Let \<open>u\<close> be the row that the query by user name finds. If the digest of the
  password equals the stored digest, \<open>authenticate_user\<close> returns \<open>(True, is_admin u)\<close>, and
  in the store afterwards the same query finds \<open>u\<close> with \<open>last_login\<close> set to the current
  time and nothing else changed; the rows with another primary key are as before. If
  the digests differ, it returns \<open>(False, False)\<close> and the store is unchanged.
\<close>

theorem authenticate_user_known:
  assumes found: "query_first db name = Some u"
  shows "(password_hash u = hash_password sha256 password \<longrightarrow>
            fst (authenticate_user sha256 now db name password) = (True, is_admin u) \<and>
            query_first (snd (authenticate_user sha256 now db name password)) name =
              Some (u\<lparr>last_login := Some now\<rparr>) \<and>
            length (snd (authenticate_user sha256 now db name password)) = length db \<and>
            (\<forall>i<length db. uid (db ! i) \<noteq> uid u \<longrightarrow>
               snd (authenticate_user sha256 now db name password) ! i = db ! i)) \<and>
         (password_hash u \<noteq> hash_password sha256 password \<longrightarrow>
            authenticate_user sha256 now db name password = ((False, False), db))"
proof (intro conjI impI)
  assume ok: "password_hash u = hash_password sha256 password"
  then have a: "authenticate_user sha256 now db name password =
      ((True, is_admin u), commit_last_login db u now)"
    by (simp add: authenticate_user_def found)
  show "fst (authenticate_user sha256 now db name password) = (True, is_admin u)"
    by (simp add: a)
  show "query_first (snd (authenticate_user sha256 now db name password)) name =
              Some (u\<lparr>last_login := Some now\<rparr>)"
    by (simp add: a query_first_commit[OF found])
  show "length (snd (authenticate_user sha256 now db name password)) = length db"
    by (simp add: a commit_last_login_def)
  show "\<forall>i<length db. uid (db ! i) \<noteq> uid u \<longrightarrow>
               snd (authenticate_user sha256 now db name password) ! i = db ! i"
    by (simp add: a commit_last_login_def)
next
  assume "password_hash u \<noteq> hash_password sha256 password"
  then show "authenticate_user sha256 now db name password = ((False, False), db)"
    by (simp add: authenticate_user_def found)
qed

text \<open>
  For C6: a store with an administrator and a plain user; the digest is the identity here,
  so that the digests can be compared by evaluation.
\<close>

theorem authenticate_user_known_witness:
  "query_first
     [\<lparr>uid = 1, username = str ''admin'', password_hash = str ''admin123'', is_admin = True,
        created_at = 5, last_login = None\<rparr>,
      \<lparr>uid = 2, username = str ''bob'', password_hash = str ''pw'', is_admin = False,
        created_at = 6, last_login = Some 7\<rparr>] (str ''admin'') =
     Some \<lparr>uid = 1, username = str ''admin'', password_hash = str ''admin123'', is_admin = True,
        created_at = 5, last_login = None\<rparr> \<and>
   authenticate_user (\<lambda>s. s) 9
     [\<lparr>uid = 1, username = str ''admin'', password_hash = str ''admin123'', is_admin = True,
        created_at = 5, last_login = None\<rparr>,
      \<lparr>uid = 2, username = str ''bob'', password_hash = str ''pw'', is_admin = False,
        created_at = 6, last_login = Some 7\<rparr>] (str ''admin'') (str ''admin123'') =
     ((True, True),
      [\<lparr>uid = 1, username = str ''admin'', password_hash = str ''admin123'', is_admin = True,
        created_at = 5, last_login = Some 9\<rparr>,
      \<lparr>uid = 2, username = str ''bob'', password_hash = str ''pw'', is_admin = False,
        created_at = 6, last_login = Some 7\<rparr>]) \<and>
   authenticate_user (\<lambda>s. s) 9
     [\<lparr>uid = 1, username = str ''admin'', password_hash = str ''admin123'', is_admin = True,
        created_at = 5, last_login = None\<rparr>,
      \<lparr>uid = 2, username = str ''bob'', password_hash = str ''pw'', is_admin = False,
        created_at = 6, last_login = Some 7\<rparr>] (str ''admin'') (str ''guess'') =
     ((False, False),
      [\<lparr>uid = 1, username = str ''admin'', password_hash = str ''admin123'', is_admin = True,
        created_at = 5, last_login = None\<rparr>,
      \<lparr>uid = 2, username = str ''bob'', password_hash = str ''pw'', is_admin = False,
        created_at = 6, last_login = Some 7\<rparr>])"
proof -
  let ?a = "\<lparr>uid = 1, username = str ''admin'', password_hash = str ''admin123'', is_admin = True,
        created_at = 5, last_login = None\<rparr>"
  let ?b = "\<lparr>uid = 2, username = str ''bob'', password_hash = str ''pw'', is_admin = False,
        created_at = 6, last_login = Some 7\<rparr>"
  let ?db = "[?a, ?b]"
  have found: "query_first ?db (str ''admin'') = Some ?a"
    by (simp add: query_first_def str_def)
  have right: "password_hash ?a = hash_password (\<lambda>s. s) (str ''admin123'')"
    by (simp add: hash_password_def)
  have wrong: "password_hash ?a \<noteq> hash_password (\<lambda>s. s) (str ''guess'')"
    by (simp add: hash_password_def str_def)
  note T1 = authenticate_user_known[OF found, of "\<lambda>s. s" "str ''admin123''" 9]
  note T2 = authenticate_user_known[OF found, of "\<lambda>s. s" "str ''guess''" 9]
  from T1 right have f: "fst (authenticate_user (\<lambda>s. s) 9 ?db (str ''admin'') (str ''admin123'')) = (True, True)"
    and l: "length (snd (authenticate_user (\<lambda>s. s) 9 ?db (str ''admin'') (str ''admin123''))) = 2"
    and q: "query_first (snd (authenticate_user (\<lambda>s. s) 9 ?db (str ''admin'') (str ''admin123''))) (str ''admin'') =
              Some (?a\<lparr>last_login := Some 9\<rparr>)"
    and o: "\<forall>i<length ?db. uid (?db ! i) \<noteq> uid ?a \<longrightarrow>
               snd (authenticate_user (\<lambda>s. s) 9 ?db (str ''admin'') (str ''admin123'')) ! i = ?db ! i"
    by simp_all
  from o have o1: "snd (authenticate_user (\<lambda>s. s) 9 ?db (str ''admin'') (str ''admin123'')) ! 1 = ?b"
    by simp
  obtain x y where xy: "snd (authenticate_user (\<lambda>s. s) 9 ?db (str ''admin'') (str ''admin123'')) = [x, y]"
    using l by (auto simp: length_Suc_conv numeral_2_eq_2)
  from o1 xy have y: "y = ?b" by simp
  from q xy y have x: "x = ?a\<lparr>last_login := Some 9\<rparr>"
    by (simp add: query_first_def str_def split: if_splits)
  have 1: "authenticate_user (\<lambda>s. s) 9 ?db (str ''admin'') (str ''admin123'') =
      ((True, True), [?a\<lparr>last_login := Some 9\<rparr>, ?b])"
    using f xy x y by (simp add: prod_eq_iff)
  from T2 wrong have 2: "authenticate_user (\<lambda>s. s) 9 ?db (str ''admin'') (str ''guess'') = ((False, False), ?db)"
    by blast
  from found 1 2 show ?thesis by simp
qed

text \<open>
  Claim C7. A user name that the store does not hold and a user name that it holds
  with a wrong password get the same return value, \<open>(False, False)\<close>, and both leave the
  store unchanged.
\<close>

theorem authenticate_user_same_rejection:
  assumes unknown: "query_first db name1 = None"
    and known: "query_first db name2 = Some u"
    and wrong: "password_hash u \<noteq> hash_password sha256 password2"
  shows "fst (authenticate_user sha256 now db name1 password1) =
         fst (authenticate_user sha256 now db name2 password2) \<and>
         authenticate_user sha256 now db name1 password1 = ((False, False), db) \<and>
         authenticate_user sha256 now db name2 password2 = ((False, False), db)"
  using assms by (simp add: authenticate_user_def)

text \<open>For C7: the unknown name \<open>eve\<close> against the known name \<open>admin\<close> with a wrong password.\<close>

theorem authenticate_user_same_rejection_witness:
  "query_first
     [\<lparr>uid = 1, username = str ''admin'', password_hash = str ''admin123'', is_admin = True,
        created_at = 5, last_login = None\<rparr>] (str ''eve'') = None \<and>
   query_first
     [\<lparr>uid = 1, username = str ''admin'', password_hash = str ''admin123'', is_admin = True,
        created_at = 5, last_login = None\<rparr>] (str ''admin'') =
     Some \<lparr>uid = 1, username = str ''admin'', password_hash = str ''admin123'', is_admin = True,
        created_at = 5, last_login = None\<rparr> \<and>
   fst (authenticate_user (\<lambda>s. s) 9
     [\<lparr>uid = 1, username = str ''admin'', password_hash = str ''admin123'', is_admin = True,
        created_at = 5, last_login = None\<rparr>] (str ''eve'') (str ''admin123'')) =
   fst (authenticate_user (\<lambda>s. s) 9
     [\<lparr>uid = 1, username = str ''admin'', password_hash = str ''admin123'', is_admin = True,
        created_at = 5, last_login = None\<rparr>] (str ''admin'') (str ''guess''))"
proof -
  let ?a = "\<lparr>uid = 1, username = str ''admin'', password_hash = str ''admin123'', is_admin = True,
        created_at = 5, last_login = None\<rparr>"
  have unknown: "query_first [?a] (str ''eve'') = None"
    by (simp add: query_first_def str_def)
  have known: "query_first [?a] (str ''admin'') = Some ?a"
    by (simp add: query_first_def str_def)
  have wrong: "password_hash ?a \<noteq> hash_password (\<lambda>s. s) (str ''guess'')"
    by (simp add: hash_password_def str_def)
  from authenticate_user_same_rejection[OF unknown known wrong, of 9 "str ''admin123''"]
  have "fst (authenticate_user (\<lambda>s. s) 9 [?a] (str ''eve'') (str ''admin123'')) =
        fst (authenticate_user (\<lambda>s. s) 9 [?a] (str ''admin'') (str ''guess''))"
    by (rule conjunct1)
  with unknown known show ?thesis by simp
qed

lemma query_first_add_row:
  "query_first (add_row db now name h a) name \<noteq> None"
  by (simp add: query_first_def add_row_def split: list.splits)

lemma init_database_idem:
  "init_database sha256 now' (init_database sha256 now db) = init_database sha256 now db"
proof (cases "query_first db (str ''admin'')")
  case None
  then have a: "init_database sha256 now db =
      add_row db now (str ''admin'') (hash_password sha256 (str ''admin123'')) True"
    by (simp add: init_database_def)
  obtain v where "query_first (add_row db now (str ''admin'') (hash_password sha256 (str ''admin123'')) True) (str ''admin'') = Some v"
    using query_first_add_row by blast
  then show ?thesis by (simp add: a init_database_def[of sha256 now'])
next
  case (Some v)
  then show ?thesis by (simp add: init_database_def)
qed

lemma setup_database_init: "snd (setup_database sha256 now db) = init_database sha256 now db"
  by (simp add: setup_database_def init_database_def split: option.splits)

text \<open>
  Claim C8. On the empty store the bootstrap (\<open>init_database\<close> as well as the set-up
  script) leaves exactly one row named \<open>admin\<close>, with the admin flag set. A second
  bootstrap, by either function and at any later time, changes nothing, so there is
  still exactly one such row.
\<close>

theorem bootstrap_admin_once:
  "init_database sha256 now [] =
     [\<lparr>uid = 1, username = str ''admin'', password_hash = hash_password sha256 (str ''admin123''),
       is_admin = True, created_at = now, last_login = None\<rparr>] \<and>
   setup_database sha256 now [] = (True, init_database sha256 now []) \<and>
   filter (\<lambda>u. username u = str ''admin'') (init_database sha256 now []) =
     [\<lparr>uid = 1, username = str ''admin'', password_hash = hash_password sha256 (str ''admin123''),
       is_admin = True, created_at = now, last_login = None\<rparr>] \<and>
   init_database sha256 now' (init_database sha256 now []) = init_database sha256 now [] \<and>
   setup_database sha256 now' (init_database sha256 now []) = (True, init_database sha256 now []) \<and>
   length (filter (\<lambda>u. username u = str ''admin'')
             (init_database sha256 now' (init_database sha256 now []))) = 1"
proof -
  have 1: "init_database sha256 now [] =
     [\<lparr>uid = 1, username = str ''admin'', password_hash = hash_password sha256 (str ''admin123''),
       is_admin = True, created_at = now, last_login = None\<rparr>]"
    by (simp add: init_database_def query_first_def add_row_def next_id_def)
  have 2: "setup_database sha256 now [] = (True, init_database sha256 now [])"
    by (simp add: setup_database_def init_database_def query_first_def)
  have 3: "filter (\<lambda>u. username u = str ''admin'') (init_database sha256 now []) =
     [\<lparr>uid = 1, username = str ''admin'', password_hash = hash_password sha256 (str ''admin123''),
       is_admin = True, created_at = now, last_login = None\<rparr>]"
    by (simp add: 1)
  have 4: "init_database sha256 now' (init_database sha256 now []) = init_database sha256 now []"
    by (rule init_database_idem)
  have q: "query_first (init_database sha256 now []) (str ''admin'') \<noteq> None"
    by (simp add: 1 query_first_def)
  have 5: "setup_database sha256 now' (init_database sha256 now []) = (True, init_database sha256 now [])"
    using q by (auto simp: setup_database_def)
  have 6: "length (filter (\<lambda>u. username u = str ''admin'')
             (init_database sha256 now' (init_database sha256 now []))) = 1"
    unfolding 4 3 by simp
  from 1 2 3 4 5 6 show ?thesis by blast
qed

section \<open>Claims about the validation of an uploaded table\<close>

lemma series_present:
  assumes "series e df col = Inr vs"
  shows "col \<in> set (columns df)"
  using assms by (auto simp: series_def mem_columns_iff split: list.splits)

lemma bound_check_numeric:
  assumes "\<not> list_ex is_text vs"
  shows "\<exists>b. bound_check pick lo hi vs = Inr b"
  using assms by (cases "numbers vs") (auto simp: bound_check_def Let_def)

lemma out_of_range_numeric:
  assumes "series ValueError df col = Inr vs" and "\<not> list_ex is_text vs"
  shows "out_of_range df col lo hi =
     Inr (\<not> (bound_check num_min lo hi vs = Inr True \<and> bound_check num_max lo hi vs = Inr True))"
proof -
  obtain b1 b2 where b: "bound_check num_min lo hi vs = Inr b1" "bound_check num_max lo hi vs = Inr b2"
    using bound_check_numeric[OF assms(2)] by metis
  show ?thesis
    by (cases b1; cases b2) (simp_all add: out_of_range_def assms(1) b)
qed

text \<open>
  What \<open>validate_csv_data\<close> does when the latitude and longitude columns are there, once
  each, and hold numbers or missing values only: it returns, with success exactly when
  the table is non-empty, the minimum and the maximum of both columns are within their
  bounds and there are at most 50000 rows; otherwise with the message of the first
  failing check.
\<close>

lemma validate_csv_data_numeric:
  assumes lat: "series ValueError df (str ''latitude'') = Inr lat"
    and lon: "series ValueError df (str ''longitude'') = Inr lon"
    and nlat: "\<not> list_ex is_text lat" and nlon: "\<not> list_ex is_text lon"
  shows "validate_csv_data df None =
     Inr (if empty df then (False, str ''CSV file is empty'')
          else if \<not> (bound_check num_min (- 90) 90 lat = Inr True \<and>
                     bound_check num_max (- 90) 90 lat = Inr True)
               then (False, str ''Latitude values must be between -90 and 90'')
          else if \<not> (bound_check num_min (- 180) 180 lon = Inr True \<and>
                     bound_check num_max (- 180) 180 lon = Inr True)
               then (False, str ''Longitude values must be between -180 and 180'')
          else if nrows df > 50000
               then (False, str ''File too large. Maximum 50,000 records allowed.'')
          else (True, str ''Data validation successful''))"
proof -
  have p: "str ''latitude'' \<in> set (columns df)" "str ''longitude'' \<in> set (columns df)"
    using series_present[OF lat] series_present[OF lon] by simp_all
  show ?thesis
    by (simp add: validate_csv_data_def p out_of_range_numeric[OF lat nlat]
        out_of_range_numeric[OF lon nlon] Let_def)
qed

lemma validate_csv_data_missing:
  assumes "\<not> empty df"
    and "str ''latitude'' \<notin> set (columns df) \<or> str ''longitude'' \<notin> set (columns df)"
  shows "validate_csv_data df None =
     Inr (False, str ''Missing required columns: '' @
            join (str '', '') (filter (\<lambda>col. col \<notin> set (columns df))
                                 [str ''latitude'', str ''longitude'']))"
  using assms by (auto simp: validate_csv_data_def Let_def)

text \<open>
  Claim C9 fails on the code. A table read from a file whose latitude column holds the
  text \<open>abc\<close> is non-empty and has both columns; the claim lets the function return, with
  success or with a failure message. The function raises TypeError instead: the minimum
  of the column is a text, and its comparison with \<open>-90\<close> is not defined.
\<close>

theorem validate_csv_data_text_latitude:
  "validate_csv_data
     [(str ''latitude'', [Text (str ''abc'')]), (str ''longitude'', [Number (Fin 7)])] None =
   Inl TypeError"
  by (simp add: validate_csv_data_def empty_def nrows_def columns_def out_of_range_def
      series_def bound_check_def is_text_def Let_def str_def)

end
